theory Spec2Isabelle
  imports Main "HOL-Library.Word" "HOL-Library.Sublist" "HOL-Library.Signed_Division"
begin

section \<open>ExoticBalance: a periodic interrupt rebalancer\<close>

text \<open>
  A shallow embedding of \<^verbatim>\<open>kernel/irq/exoticbalance/exoticbalance.c\<close>.
  The host kernel (interrupt descriptors, per-CPU interrupt statistics, cpufreq, thermal
  zones, the idle query, the allocator) is a record of collaborators that the module's
  functions read; the module's own static variables are a record that a tick takes and
  returns; the calls a tick makes to \<^verbatim>\<open>irq_set_affinity\<close> and
  \<^verbatim>\<open>schedule_delayed_work\<close> are returned as lists, in call order.
\<close>

subsection \<open>Machine integers and constants\<close>

text \<open>
  \<^verbatim>\<open>unsigned int\<close> is a 32-bit word, read with \<open>unat\<close> or \<open>uint\<close>. An \<^verbatim>\<open>int\<close>
  variable of the tick is the same 32 bits read in two's complement with \<open>sint\<close>; a
  conversion between the two types keeps the bit pattern, so it does not show in the
  model, and signed addition wraps around (the kernel is built with wrapping signed
  overflow).
\<close>

type_synonym u32 = "32 word"
type_synonym s32 = "32 word"

definition LIGHT_INTERVAL_MS :: nat where
  "LIGHT_INTERVAL_MS = 5000"

definition HEAVY_INTERVAL_MS :: nat where
  "HEAVY_INTERVAL_MS = 30000"

definition MIN_DELTA_IRQS_BASE :: s32 where
  "MIN_DELTA_IRQS_BASE = 800"

definition MAX_CPU_TEMP_THRESHOLD :: int where
  "MAX_CPU_TEMP_THRESHOLD = 70"

definition MAX_IRQ_MIGRATE_PER_TICK :: int where
  "MAX_IRQ_MIGRATE_PER_TICK = 5"

definition UINT_MAX :: u32 where
  "UINT_MAX = - 1"

definition ENOMEM :: int where
  "ENOMEM = 12"

subsection \<open>The host platform\<close>

record irqaction =
  name :: "string option"

record irq_desc =
  action :: "irqaction option"

record cpufreq_policy =
  cpuinfo_max_freq :: u32

text \<open>
  A thermal zone's \<^verbatim>\<open>get_temp\<close> callback either stores a reading (in millidegrees)
  through its pointer argument or fails and leaves the caller's variable as it was.
\<close>

record thermal_zone_device =
  get_temp :: "int option"

text \<open>
  \<open>cpu_online\<close> is the bit of a CPU id in \<^verbatim>\<open>cpu_online_mask\<close>.
  \<open>cpuidle_cpu_in_idle\<close> is \<open>None\<close> when the macro of that name is not defined, which
  selects the second definition of \<^verbatim>\<open>cpu_is_idle_wrap\<close>.
  \<open>thermal_zone_get_zone_by_name\<close> is \<open>None\<close> where the kernel returns an error pointer;
  \<open>cpufreq_cpu_get\<close> is \<open>None\<close> where it returns \<^verbatim>\<open>NULL\<close>.
\<close>

record platform =
  nr_irqs :: nat
  nr_cpu_ids :: nat
  cpu_online :: "nat \<Rightarrow> bool"
  kstat_irqs_cpu :: "nat \<Rightarrow> nat \<Rightarrow> u32"
  irq_to_desc :: "nat \<Rightarrow> irq_desc option"
  irq_can_set_affinity :: "nat \<Rightarrow> bool"
  cpuidle_cpu_in_idle :: "(int \<Rightarrow> bool) option"
  CONFIG_THERMAL :: bool
  thermal_zone_get_zone_by_name :: "string \<Rightarrow> thermal_zone_device option"
  cpufreq_cpu_get :: "int \<Rightarrow> cpufreq_policy option"

text \<open>
  \<^verbatim>\<open>for_each_online_cpu(cpu)\<close> visits, in ascending order, the CPU ids below
  \<^verbatim>\<open>nr_cpu_ids\<close> whose bit is set in the online mask; \<^verbatim>\<open>num_online_cpus()\<close> is the
  number of those bits and has type \<^verbatim>\<open>unsigned int\<close>.
\<close>

definition for_each_online_cpu :: "platform \<Rightarrow> nat list" where
  "for_each_online_cpu p = filter (cpu_online p) [0..<nr_cpu_ids p]"

definition num_online_cpus :: "platform \<Rightarrow> u32" where
  "num_online_cpus p = of_nat (length (for_each_online_cpu p))"

definition cpu_is_idle_wrap :: "platform \<Rightarrow> int \<Rightarrow> bool" where
  "cpu_is_idle_wrap p cpu =
     (case cpuidle_cpu_in_idle p of
        Some in_idle \<Rightarrow> in_idle cpu
      | None \<Rightarrow> False)"

subsection \<open>The blacklist filter\<close>

definition irq_name_blacklist :: "string list" where
  "irq_name_blacklist =
     [''mdss'', ''sde'', ''dsi'', ''kgsl'', ''adreno'', ''msm_gpu'',
      ''input'', ''touch'', ''synaptics'', ''fts'', ''goodix'',
      ''ufs'', ''ufshcd'', ''qcom-ufshcd'', ''sdc'',
      ''wlan'', ''wifi'', ''rmnet'', ''ipa'', ''qcom,sps'', ''bam'', ''modem'', ''qrtr'',
      ''pmic'', ''smb'', ''bms'', ''timer'', ''hrtimer'', ''watchdog'', ''thermal'', ''cpu'']"

text \<open>
  Modelled from the spec: \<^verbatim>\<open>strnstr\<close> is the kernel's string library routine
  (\<^verbatim>\<open>lib/string.c\<close>), which is not part of the module's source file. The specification
  describes the test it performs as containment "as a case-sensitive substring"; the
  model is the byte-wise search for the first occurrence of \<open>s2\<close> that lies within the
  first \<open>len\<close> bytes of \<open>s1\<close>, returning the suffix of \<open>s1\<close> that starts there.
\<close>

function strnstr :: "string \<Rightarrow> string \<Rightarrow> nat \<Rightarrow> string option" where
  "strnstr s1 s2 len =
     (if s2 = [] then Some s1
      else if length s2 \<le> len then
        (if take (length s2) s1 = s2 then Some s1 else strnstr (tl s1) s2 (len - 1))
      else None)"
  by pat_completeness auto
termination
proof (relation "measure (\<lambda>(s1, s2, len). len)")
  fix s1 s2 :: string and len :: nat
  assume "s2 \<noteq> []" and "length s2 \<le> len"
  then have "0 < len" by (cases s2) auto
  then show "((tl s1, s2, len - 1), (s1, s2, len)) \<in> measure (\<lambda>(s1, s2, len). len)"
    by simp
qed simp

declare strnstr.simps [simp del]

text \<open>
  The loop of \<^verbatim>\<open>is_irq_blacklisted\<close> over the table, for a name that is present.
\<close>

fun blacklist_scan :: "string \<Rightarrow> string list \<Rightarrow> bool" where
  "blacklist_scan nm [] = False"
| "blacklist_scan nm (frag # frags) =
     (if length frag \<le> length nm \<and> strnstr nm frag (length nm) \<noteq> None then True
      else blacklist_scan nm frags)"

definition is_irq_blacklisted :: "platform \<Rightarrow> nat \<Rightarrow> bool" where
  "is_irq_blacklisted p irq =
     (case irq_to_desc p irq of
        None \<Rightarrow> False
      | Some desc \<Rightarrow>
          (case action desc of
             None \<Rightarrow> False
           | Some act \<Rightarrow>
               (case name act of
                  None \<Rightarrow> False
                | Some nm \<Rightarrow> blacklist_scan nm irq_name_blacklist)))"

subsection \<open>Thermal and frequency queries\<close>

text \<open>
  \<^verbatim>\<open>temp / 1000\<close> is C's division of \<^verbatim>\<open>int\<close>s, which truncates towards zero
  (\<open>sdiv\<close>).
\<close>

definition get_max_cpu_temp :: "platform \<Rightarrow> int" where
  "get_max_cpu_temp p =
     (if CONFIG_THERMAL p then
        (let temp =
           (case thermal_zone_get_zone_by_name p ''cpu-thermal'' of
              None \<Rightarrow> 0
            | Some tz \<Rightarrow> (case get_temp tz of None \<Rightarrow> 0 | Some t \<Rightarrow> t))
         in temp sdiv 1000)
      else 0)"

definition get_cpu_max_freq :: "platform \<Rightarrow> int \<Rightarrow> u32" where
  "get_cpu_max_freq p cpu =
     (case cpufreq_cpu_get p cpu of
        None \<Rightarrow> 0
      | Some policy \<Rightarrow> cpuinfo_max_freq policy)"

definition is_cpu_big :: "platform \<Rightarrow> int \<Rightarrow> bool" where
  "is_cpu_big p cpu = (2000000 \<le> get_cpu_max_freq p cpu)"

subsection \<open>The migrator\<close>

text \<open>
  The loop of \<^verbatim>\<open>migrate_irqs_limited\<close>, from the value \<open>irq\<close> of its loop variable.
  The result is the value of the loop variable when the loop is left, the final value of
  \<^verbatim>\<open>*migrated\<close>, and the calls of \<^verbatim>\<open>irq_set_affinity\<close> made so far, each as the line
  and the one CPU of the mask it was given.
\<close>

function migrate_from ::
  "platform \<Rightarrow> int \<Rightarrow> nat \<Rightarrow> int \<Rightarrow> (nat \<times> int) list \<Rightarrow> nat \<times> int \<times> (nat \<times> int) list" where
  "migrate_from p to irq migrated calls =
     (if irq < nr_irqs p then
        (if MAX_IRQ_MIGRATE_PER_TICK \<le> migrated then (irq, migrated, calls)
         else if \<not> irq_can_set_affinity p irq then migrate_from p to (irq + 1) migrated calls
         else if is_irq_blacklisted p irq then migrate_from p to (irq + 1) migrated calls
         else if cpu_is_idle_wrap p to then migrate_from p to (irq + 1) migrated calls
         else migrate_from p to (irq + 1) (migrated + 1) (calls @ [(irq, to)]))
      else (irq, migrated, calls))"
  by pat_completeness auto
termination
  by (relation "measure (\<lambda>(p, to, irq, migrated, calls). nr_irqs p - irq)") auto

declare migrate_from.simps [simp del]

definition migrate_irqs_limited ::
  "platform \<Rightarrow> int \<Rightarrow> int \<Rightarrow> int \<Rightarrow> nat \<times> int \<times> (nat \<times> int) list" where
  "migrate_irqs_limited p from to migrated = migrate_from p to 0 migrated []"

subsection \<open>The tick\<close>

record balancer =
  exoticbalance_enabled :: bool
  cpu_irq_count :: "u32 list"
  cpu_irq_last :: "u32 list"
  heavy_tick :: bool

text \<open>
  \<^verbatim>\<open>memset(cpu_irq_count, 0, sizeof(unsigned int) * nr_cpu_ids)\<close> on an array of at
  least \<open>n\<close> elements.
\<close>

definition memset_zero :: "nat \<Rightarrow> u32 list \<Rightarrow> u32 list" where
  "memset_zero n xs = replicate n 0 @ drop n xs"

text \<open>The inner and the outer loop of the sampling pass.\<close>

primrec sample_cpus :: "platform \<Rightarrow> nat \<Rightarrow> nat list \<Rightarrow> u32 list \<Rightarrow> u32 list" where
  "sample_cpus p irq [] cnt = cnt"
| "sample_cpus p irq (cpu # cpus) cnt =
     sample_cpus p irq cpus (cnt[cpu := cnt ! cpu + kstat_irqs_cpu p irq cpu])"

primrec sample_irqs :: "platform \<Rightarrow> bool \<Rightarrow> nat list \<Rightarrow> u32 list \<Rightarrow> u32 list" where
  "sample_irqs p heavy [] cnt = cnt"
| "sample_irqs p heavy (irq # irqs) cnt =
     (if \<not> heavy \<and> is_irq_blacklisted p irq then sample_irqs p heavy irqs cnt
      else sample_irqs p heavy irqs (sample_cpus p irq (for_each_online_cpu p) cnt))"

definition tick_counts :: "platform \<Rightarrow> balancer \<Rightarrow> u32 list" where
  "tick_counts p st =
     sample_irqs p (heavy_tick st) [0..<nr_irqs p]
       (memset_zero (nr_cpu_ids p) (cpu_irq_count st))"

text \<open>
  The local variables that the delta loop updates, with the array \<^verbatim>\<open>cpu_irq_last\<close>.
  \<^verbatim>\<open>delta_sum\<close> is an \<^verbatim>\<open>int\<close> to which the \<^verbatim>\<open>unsigned int\<close> delta is added.
\<close>

record scan =
  max_irq :: u32
  min_irq :: u32
  max_cpu :: int
  min_cpu :: int
  delta_sum :: s32
  irq_last :: "u32 list"

definition scan_init :: "u32 list \<Rightarrow> scan" where
  "scan_init lst =
     \<lparr>max_irq = 0, min_irq = UINT_MAX, max_cpu = - 1, min_cpu = - 1, delta_sum = 0,
      irq_last = lst\<rparr>"

text \<open>The body of the delta loop for one online CPU, and the loop.\<close>

definition delta_body :: "u32 list \<Rightarrow> nat \<Rightarrow> scan \<Rightarrow> scan" where
  "delta_body cnt cpu s =
     (let delta = cnt ! cpu - irq_last s ! cpu;
          s1 = s\<lparr>delta_sum := delta_sum s + delta\<rparr>;
          s2 = (if max_irq s1 < delta then s1\<lparr>max_irq := delta, max_cpu := int cpu\<rparr> else s1);
          s3 = (if delta < min_irq s2 then s2\<lparr>min_irq := delta, min_cpu := int cpu\<rparr> else s2)
      in s3\<lparr>irq_last := (irq_last s3)[cpu := cnt ! cpu]\<rparr>)"

fun delta_loop :: "u32 list \<Rightarrow> nat list \<Rightarrow> scan \<Rightarrow> scan" where
  "delta_loop cnt [] s = s"
| "delta_loop cnt (cpu # cpus) s = delta_loop cnt cpus (delta_body cnt cpu s)"

definition tick_scan :: "platform \<Rightarrow> balancer \<Rightarrow> scan" where
  "tick_scan p st =
     delta_loop (tick_counts p st) (for_each_online_cpu p) (scan_init (cpu_irq_last st))"

text \<open>
  \<^verbatim>\<open>delta_sum / num_online_cpus()\<close> divides an \<^verbatim>\<open>int\<close> by an \<^verbatim>\<open>unsigned int\<close>:
  the usual arithmetic conversions make it an unsigned division of the bit pattern of
  \<^verbatim>\<open>delta_sum\<close>, and the quotient is stored back into an \<^verbatim>\<open>int\<close>. Likewise the
  comparison of \<^verbatim>\<open>max_irq - min_irq\<close> with the \<^verbatim>\<open>int\<close> threshold is unsigned.
\<close>

definition delta_avg_of :: "platform \<Rightarrow> scan \<Rightarrow> s32" where
  "delta_avg_of p s = delta_sum s div num_online_cpus p"

definition dynamic_threshold_of :: "platform \<Rightarrow> scan \<Rightarrow> s32" where
  "dynamic_threshold_of p s = delta_avg_of p s + MIN_DELTA_IRQS_BASE"

definition schedule_next :: "platform \<Rightarrow> int \<Rightarrow> nat" where
  "schedule_next p cpu =
     (if cpu_is_idle_wrap p cpu then HEAVY_INTERVAL_MS else LIGHT_INTERVAL_MS)"

datatype fault = Divide_Error

text \<open>
  What one run of the work function leaves behind: the module's variables, the call of
  the migrator if there was one (source and destination), the calls of
  \<^verbatim>\<open>irq_set_affinity\<close>, and the delays in milliseconds handed to
  \<^verbatim>\<open>schedule_delayed_work\<close>.
\<close>

record outcome =
  state :: balancer
  migrator_call :: "(int \<times> int) option"
  affinity_calls :: "(nat \<times> int) list"
  scheduled :: "nat list"

definition exotic_balance_irq :: "platform \<Rightarrow> balancer \<Rightarrow> fault + outcome" where
  "exotic_balance_irq p st =
     (if \<not> exoticbalance_enabled st then
        Inr \<lparr>state = st, migrator_call = None, affinity_calls = [],
             scheduled = [schedule_next p (- 1)]\<rparr>
      else
        (let cnt = tick_counts p st;
             s = delta_loop cnt (for_each_online_cpu p) (scan_init (cpu_irq_last st))
         in if num_online_cpus p = 0 then Inl Divide_Error
            else
              (let delta_avg = delta_sum s div num_online_cpus p;
                   dynamic_threshold = delta_avg + MIN_DELTA_IRQS_BASE;
                   call =
                     (if 0 \<le> max_cpu s \<and> 0 \<le> min_cpu s \<and> max_cpu s \<noteq> min_cpu s then
                        (if dynamic_threshold \<le> max_irq s - min_irq s \<and>
                            \<not> is_cpu_big p (min_cpu s) \<and> is_cpu_big p (max_cpu s) \<and>
                            get_max_cpu_temp p < MAX_CPU_TEMP_THRESHOLD
                         then Some (max_cpu s, min_cpu s)
                         else None)
                      else None);
                   calls =
                     (case call of
                        None \<Rightarrow> []
                      | Some (from, to) \<Rightarrow> snd (snd (migrate_irqs_limited p from to 0)))
               in Inr \<lparr>state = st\<lparr>cpu_irq_count := cnt, cpu_irq_last := irq_last s,
                                    heavy_tick := \<not> heavy_tick st\<rparr>,
                       migrator_call = call, affinity_calls = calls,
                       scheduled = [schedule_next p (max_cpu s)]\<rparr>)))"

subsection \<open>Start\<close>

text \<open>
  The allocator's live blocks, each with its address and contents. \<^verbatim>\<open>kzalloc\<close> of
  \<open>n\<close> elements either fails (\<^verbatim>\<open>NULL\<close>, \<open>None\<close>) or adds a zeroed block at an unused,
  non-null address; \<^verbatim>\<open>kfree\<close> removes a block.
\<close>

type_synonym heap = "(nat \<times> u32 list) list"

definition kzalloc :: "bool \<Rightarrow> nat \<Rightarrow> heap \<Rightarrow> nat option \<times> heap" where
  "kzalloc ok n h =
     (if ok then (let a = Suc (fold max (map fst h) 0) in (Some a, h @ [(a, replicate n 0)]))
      else (None, h))"

definition kfree :: "nat option \<Rightarrow> heap \<Rightarrow> heap" where
  "kfree ptr h = (case ptr of None \<Rightarrow> h | Some a \<Rightarrow> filter (\<lambda>b. fst b \<noteq> a) h)"

record module_start =
  ret :: int
  cpu_irq_count_ptr :: "nat option"
  cpu_irq_last_ptr :: "nat option"
  live :: heap
  first_delay :: "nat list"

text \<open>
  \<open>ok1\<close> and \<open>ok2\<close> say whether the first and the second allocation succeed.
\<close>

definition exoticbalance_init :: "platform \<Rightarrow> bool \<Rightarrow> bool \<Rightarrow> heap \<Rightarrow> module_start" where
  "exoticbalance_init p ok1 ok2 h =
     (let (cnt, h1) = kzalloc ok1 (nr_cpu_ids p) h;
          (lst, h2) = kzalloc ok2 (nr_cpu_ids p) h1
      in if cnt = None \<or> lst = None then
           \<lparr>ret = - ENOMEM, cpu_irq_count_ptr = cnt, cpu_irq_last_ptr = lst, live = h2,
            first_delay = []\<rparr>
         else
           \<lparr>ret = 0, cpu_irq_count_ptr = cnt, cpu_irq_last_ptr = lst, live = h2,
            first_delay = [LIGHT_INTERVAL_MS]\<rparr>)"

definition exoticbalance_exit :: "module_start \<Rightarrow> heap" where
  "exoticbalance_exit m = kfree (cpu_irq_last_ptr m) (kfree (cpu_irq_count_ptr m) (live m))"

text \<open>
  The module's variables after a successful start: both arrays zeroed by \<^verbatim>\<open>kzalloc\<close>,
  the static initialisers of \<^verbatim>\<open>exoticbalance_enabled\<close> and \<^verbatim>\<open>heavy_tick\<close>.
\<close>

definition started :: "platform \<Rightarrow> balancer" where
  "started p =
     \<lparr>exoticbalance_enabled = True, cpu_irq_count = replicate (nr_cpu_ids p) 0,
      cpu_irq_last = replicate (nr_cpu_ids p) 0, heavy_tick = False\<rparr>"

subsection \<open>Example platforms\<close>

text \<open>
  Two CPUs, both online: CPU 0 with a maximum frequency of 2.4 GHz and CPU 1 with
  1.2 GHz. Nine interrupt lines: line 0 belongs to the touch controller, line 2 has no
  handler and its affinity cannot be set, the others are network lines. Line 1 has fired
  2000 times on CPU 0 and 100 times on CPU 1. The CPU thermal zone reads 50 degrees, and
  the kernel has no \<^verbatim>\<open>cpuidle_cpu_in_idle\<close>.
\<close>

definition demo_desc :: "nat \<Rightarrow> irq_desc option" where
  "demo_desc irq =
     (if irq = 0 then Some \<lparr>action = Some \<lparr>name = Some ''synaptics_ts''\<rparr>\<rparr>
      else if irq = 2 then Some \<lparr>action = None\<rparr>
      else Some \<lparr>action = Some \<lparr>name = Some ''eth''\<rparr>\<rparr>)"

definition demo :: platform where
  "demo =
     \<lparr>nr_irqs = 9, nr_cpu_ids = 2, cpu_online = (\<lambda>cpu. True),
      kstat_irqs_cpu = (\<lambda>irq cpu. if irq = 1 then (if cpu = 0 then 2000 else 100) else 0),
      irq_to_desc = demo_desc,
      irq_can_set_affinity = (\<lambda>irq. irq \<noteq> 2),
      cpuidle_cpu_in_idle = None,
      CONFIG_THERMAL = True,
      thermal_zone_get_zone_by_name =
        (\<lambda>nm. if nm = ''cpu-thermal'' then Some \<lparr>get_temp = Some 50000\<rparr> else None),
      cpufreq_cpu_get =
        (\<lambda>cpu. if cpu = 0 then Some \<lparr>cpuinfo_max_freq = 2400000\<rparr>
              else if cpu = 1 then Some \<lparr>cpuinfo_max_freq = 1200000\<rparr>
              else None)\<rparr>"

text \<open>
  The same platform on a kernel that has \<^verbatim>\<open>cpuidle_cpu_in_idle\<close>, with CPU 0 idle;
  the same platform with CPU 1 offline; and the module's variables after the first tick
  on it.
\<close>

definition demo_idle :: platform where
  "demo_idle = demo\<lparr>cpuidle_cpu_in_idle := Some (\<lambda>cpu. cpu = 0)\<rparr>"

definition demo_after_tick :: balancer where
  "demo_after_tick =
     \<lparr>exoticbalance_enabled = True, cpu_irq_count = [2000, 100],
      cpu_irq_last = [2000, 100], heavy_tick = True\<rparr>"

definition demo_offline :: platform where
  "demo_offline = demo\<lparr>cpu_online := (\<lambda>cpu. cpu = 0)\<rparr>"

text \<open>
  Two CPUs and one interrupt line, the architected timer, which has fired three times on
  CPU 0; no cpufreq policies. The module's variables after the first and after the
  second tick on it.
\<close>

definition wrap_demo :: platform where
  "wrap_demo =
     \<lparr>nr_irqs = 1, nr_cpu_ids = 2, cpu_online = (\<lambda>cpu. True),
      kstat_irqs_cpu = (\<lambda>irq cpu. if cpu = 0 then 3 else 0),
      irq_to_desc = (\<lambda>irq. Some \<lparr>action = Some \<lparr>name = Some ''arch_timer''\<rparr>\<rparr>),
      irq_can_set_affinity = (\<lambda>irq. True),
      cpuidle_cpu_in_idle = None,
      CONFIG_THERMAL = False,
      thermal_zone_get_zone_by_name = (\<lambda>nm. None),
      cpufreq_cpu_get = (\<lambda>cpu. None)\<rparr>"

definition wrap_after_1 :: balancer where
  "wrap_after_1 =
     \<lparr>exoticbalance_enabled = True, cpu_irq_count = [0, 0], cpu_irq_last = [0, 0],
      heavy_tick = True\<rparr>"

definition wrap_after_2 :: balancer where
  "wrap_after_2 =
     \<lparr>exoticbalance_enabled = True, cpu_irq_count = [3, 0], cpu_irq_last = [3, 0],
      heavy_tick = False\<rparr>"

text \<open>
  The first platform with other counts for line 1: 3221225472 on CPU 0 and 1073741824 on
  CPU 1, which add up to \<open>2^32\<close>; and 2147483648 on CPU 0 and 1073741824 on CPU 1, which
  add up to more than the largest \<^verbatim>\<open>int\<close>.
\<close>

definition sum_wrap_demo :: platform where
  "sum_wrap_demo =
     demo\<lparr>kstat_irqs_cpu :=
            (\<lambda>irq cpu. if irq = 1 then (if cpu = 0 then 3221225472 else 1073741824) else 0)\<rparr>"

definition signed_demo :: platform where
  "signed_demo =
     demo\<lparr>kstat_irqs_cpu :=
            (\<lambda>irq cpu. if irq = 1 then (if cpu = 0 then 2147483648 else 1073741824) else 0)\<rparr>"

text \<open>
  The first platform on a kernel whose idle query holds for the id \<open>-1\<close> and for no CPU.
\<close>

definition demo_unset_idle :: platform where
  "demo_unset_idle = demo\<lparr>cpuidle_cpu_in_idle := Some (\<lambda>cpu. cpu = - 1)\<rparr>"

subsection \<open>Properties of the blacklist filter\<close>

lemma strnstr_sublist:
  "len = length s1 \<Longrightarrow> (strnstr s1 s2 len \<noteq> None) = sublist s2 s1"
proof (induction s1 s2 len rule: strnstr.induct)
  case (1 s1 s2 len)
  show ?case
  proof (cases "s2 = []")
    case True
    then show ?thesis by (simp add: strnstr.simps)
  next
    case nonempty: False
    show ?thesis
    proof (cases "length s2 \<le> len")
      case False
      with 1(2) have "length s1 < length s2" by simp
      then have "\<not> sublist s2 s1"
        by (auto simp: sublist_def)
      with nonempty False show ?thesis by (simp add: strnstr.simps)
    next
      case fits: True
      show ?thesis
      proof (cases "take (length s2) s1 = s2")
        case True
        then have "prefix s2 s1" by (metis take_is_prefix)
        then have "sublist s2 s1" by (rule prefix_imp_sublist)
        with nonempty fits True show ?thesis by (simp add: strnstr.simps)
      next
        case False
        from nonempty fits 1(2) obtain c cs where s1: "s1 = c # cs"
          by (cases s1) auto
        from False have np: "\<not> prefix s2 s1"
          by (auto simp: prefix_def)
        have "len - 1 = length (tl s1)" using 1(2) by simp
        from 1(1)[OF nonempty fits False this]
        have "(strnstr (tl s1) s2 (len - 1) \<noteq> None) = sublist s2 cs"
          using s1 by simp
        moreover have "sublist s2 s1 = sublist s2 cs"
          using np s1 by (simp add: sublist_Cons_right)
        ultimately show ?thesis
          using nonempty fits False by (simp add: strnstr.simps)
      qed
    qed
  qed
qed

lemma blacklist_test_sublist:
  "(length frag \<le> length nm \<and> strnstr nm frag (length nm) \<noteq> None) = sublist frag nm"
  using strnstr_sublist [of "length nm" nm frag] sublist_length_le [of frag nm] by auto

lemma blacklist_scan_iff:
  "blacklist_scan nm frags = (\<exists>frag \<in> set frags. sublist frag nm)"
proof (induction frags)
  case Nil
  show ?case by simp
next
  case (Cons frag frags)
  show ?case
    using Cons blacklist_test_sublist [of frag nm] by (cases "sublist frag nm") auto
qed

lemma demo_blacklisted_0: "is_irq_blacklisted demo 0"
  by (simp add: is_irq_blacklisted_def demo_def demo_desc_def irq_name_blacklist_def
      strnstr.simps)

lemma demo_not_blacklisted:
  "irq \<noteq> 0 \<Longrightarrow> \<not> is_irq_blacklisted demo irq"
  by (simp add: is_irq_blacklisted_def demo_def demo_desc_def irq_name_blacklist_def
      strnstr.simps)

text \<open>
  C7. An interrupt line is classified as protected if and only if it has a descriptor,
  the descriptor has a handler, the handler has a name, and some entry of the blacklist
  table occurs in that name as a contiguous run of bytes (compared byte by byte, hence
  case-sensitively). A line with no descriptor, no handler or no name is therefore
  unprotected, and the classification depends on nothing but the name and the table.
\<close>

theorem is_irq_blacklisted_iff:
  "is_irq_blacklisted p irq \<longleftrightarrow>
     (\<exists>desc act nm. irq_to_desc p irq = Some desc \<and> action desc = Some act \<and>
        name act = Some nm \<and> (\<exists>frag \<in> set irq_name_blacklist. sublist frag nm))"
  by (auto simp: is_irq_blacklisted_def blacklist_scan_iff split: option.splits)

theorem is_irq_blacklisted_iff_witness:
  "(\<exists>desc act nm. irq_to_desc demo 0 = Some desc \<and> action desc = Some act \<and>
      name act = Some nm \<and> (\<exists>frag \<in> set irq_name_blacklist. sublist frag nm)) \<and>
   \<not> (\<exists>desc act nm. irq_to_desc demo 2 = Some desc \<and> action desc = Some act \<and>
      name act = Some nm \<and> (\<exists>frag \<in> set irq_name_blacklist. sublist frag nm))"
  using is_irq_blacklisted_iff [of demo 0] is_irq_blacklisted_iff [of demo 2]
    demo_blacklisted_0 demo_not_blacklisted [of 2]
  by simp

subsection \<open>Properties of the migrator\<close>

lemma migrate_from_done:
  "\<not> irq < nr_irqs p \<or> MAX_IRQ_MIGRATE_PER_TICK \<le> m \<Longrightarrow>
     migrate_from p to irq m calls = (irq, m, calls)"
  by (auto simp: migrate_from.simps [of p to irq m calls])

lemma migrate_from_skip:
  "irq < nr_irqs p \<Longrightarrow> m < MAX_IRQ_MIGRATE_PER_TICK \<Longrightarrow>
     \<not> irq_can_set_affinity p irq \<or> is_irq_blacklisted p irq \<or> cpu_is_idle_wrap p to \<Longrightarrow>
     migrate_from p to irq m calls = migrate_from p to (Suc irq) m calls"
  by (auto simp: migrate_from.simps [of p to irq m calls])

lemma migrate_from_move:
  "irq < nr_irqs p \<Longrightarrow> m < MAX_IRQ_MIGRATE_PER_TICK \<Longrightarrow>
     irq_can_set_affinity p irq \<Longrightarrow> \<not> is_irq_blacklisted p irq \<Longrightarrow> \<not> cpu_is_idle_wrap p to \<Longrightarrow>
     migrate_from p to irq m calls = migrate_from p to (Suc irq) (m + 1) (calls @ [(irq, to)])"
  by (auto simp: migrate_from.simps [of p to irq m calls])

lemma migrate_from_cases:
  obtains (halt) "migrate_from p to irq m calls = (irq, m, calls)"
      "\<not> irq < nr_irqs p \<or> MAX_IRQ_MIGRATE_PER_TICK \<le> m"
  | (pass) "migrate_from p to irq m calls = migrate_from p to (Suc irq) m calls"
      "irq < nr_irqs p" "m < MAX_IRQ_MIGRATE_PER_TICK"
      "\<not> irq_can_set_affinity p irq \<or> is_irq_blacklisted p irq \<or> cpu_is_idle_wrap p to"
  | (move) "migrate_from p to irq m calls = migrate_from p to (Suc irq) (m + 1) (calls @ [(irq, to)])"
      "irq < nr_irqs p" "m < MAX_IRQ_MIGRATE_PER_TICK"
      "irq_can_set_affinity p irq" "\<not> is_irq_blacklisted p irq" "\<not> cpu_is_idle_wrap p to"
proof (cases "irq < nr_irqs p \<and> m < MAX_IRQ_MIGRATE_PER_TICK")
  case False
  then have c: "\<not> irq < nr_irqs p \<or> MAX_IRQ_MIGRATE_PER_TICK \<le> m" by auto
  from migrate_from_done [OF c] c show ?thesis by (rule halt)
next
  case True
  then have r: "irq < nr_irqs p" "m < MAX_IRQ_MIGRATE_PER_TICK" by simp_all
  show ?thesis
  proof (cases "\<not> irq_can_set_affinity p irq \<or> is_irq_blacklisted p irq \<or> cpu_is_idle_wrap p to")
    case True
    from migrate_from_skip [OF r True] r True show ?thesis by (rule pass)
  next
    case False
    then have e: "irq_can_set_affinity p irq" "\<not> is_irq_blacklisted p irq"
        "\<not> cpu_is_idle_wrap p to"
      by simp_all
    from migrate_from_move [OF r e] r e show ?thesis by (rule move)
  qed
qed

lemma migrate_from_exit_ge:
  "irq \<le> fst (migrate_from p to irq m calls)"
proof (induction "nr_irqs p - irq" arbitrary: irq m calls)
  case 0
  then show ?case by (simp add: migrate_from_done)
next
  case (Suc k)
  then have *: "irq < nr_irqs p" "k = nr_irqs p - Suc irq" by auto
  show ?case
  proof (cases rule: migrate_from_cases [of p to irq m calls])
    case halt
    show ?thesis unfolding halt(1) by simp
  next
    case pass
    have "Suc irq \<le> fst (migrate_from p to (Suc irq) m calls)" by (rule Suc(1) [OF *(2)])
    then show ?thesis unfolding pass(1) by simp
  next
    case move
    have "Suc irq \<le> fst (migrate_from p to (Suc irq) (m + 1) (calls @ [(irq, to)]))"
      by (rule Suc(1) [OF *(2)])
    then show ?thesis unfolding move(1) by simp
  qed
qed

lemma migrate_from_calls:
  "\<exists>new. snd (snd (migrate_from p to irq m calls)) = calls @ new \<and>
     fst (snd (migrate_from p to irq m calls)) = m + int (length new) \<and>
     (\<forall>(i, c) \<in> set new. irq \<le> i \<and> i < fst (migrate_from p to irq m calls) \<and> c = to \<and>
        irq_can_set_affinity p i \<and> \<not> is_irq_blacklisted p i \<and> \<not> cpu_is_idle_wrap p to)"
proof (induction "nr_irqs p - irq" arbitrary: irq m calls)
  case 0
  then show ?case by (simp add: migrate_from_done)
next
  case (Suc k)
  then have *: "irq < nr_irqs p" "k = nr_irqs p - Suc irq" by auto
  show ?case
  proof (cases rule: migrate_from_cases [of p to irq m calls])
    case halt
    show ?thesis unfolding halt(1) by simp
  next
    case pass
    from Suc(1) [OF *(2), of m calls] obtain new where
      "snd (snd (migrate_from p to (Suc irq) m calls)) = calls @ new"
      "fst (snd (migrate_from p to (Suc irq) m calls)) = m + int (length new)"
      "\<forall>(i, c) \<in> set new. Suc irq \<le> i \<and> i < fst (migrate_from p to (Suc irq) m calls) \<and> c = to \<and>
        irq_can_set_affinity p i \<and> \<not> is_irq_blacklisted p i \<and> \<not> cpu_is_idle_wrap p to"
      by blast
    then have
      "snd (snd (migrate_from p to (Suc irq) m calls)) = calls @ new \<and>
       fst (snd (migrate_from p to (Suc irq) m calls)) = m + int (length new) \<and>
       (\<forall>(i, c) \<in> set new. irq \<le> i \<and> i < fst (migrate_from p to (Suc irq) m calls) \<and> c = to \<and>
        irq_can_set_affinity p i \<and> \<not> is_irq_blacklisted p i \<and> \<not> cpu_is_idle_wrap p to)"
      by auto
    then show ?thesis unfolding pass(1) by blast
  next
    case move
    let ?r = "migrate_from p to (Suc irq) (m + 1) (calls @ [(irq, to)])"
    from Suc(1) [OF *(2), of "m + 1" "calls @ [(irq, to)]"] obtain new where new:
      "snd (snd ?r) = (calls @ [(irq, to)]) @ new"
      "fst (snd ?r) = m + 1 + int (length new)"
      "\<forall>(i, c) \<in> set new. Suc irq \<le> i \<and> i < fst ?r \<and> c = to \<and>
        irq_can_set_affinity p i \<and> \<not> is_irq_blacklisted p i \<and> \<not> cpu_is_idle_wrap p to"
      by blast
    have "irq < fst ?r"
      using migrate_from_exit_ge [of "Suc irq" p to "m + 1" "calls @ [(irq, to)]"] by simp
    with new move(4,5,6) have
      "snd (snd ?r) = calls @ ((irq, to) # new) \<and>
       fst (snd ?r) = m + int (length ((irq, to) # new)) \<and>
       (\<forall>(i, c) \<in> set ((irq, to) # new). irq \<le> i \<and> i < fst ?r \<and> c = to \<and>
        irq_can_set_affinity p i \<and> \<not> is_irq_blacklisted p i \<and> \<not> cpu_is_idle_wrap p to)"
      by auto
    then show ?thesis unfolding move(1) by blast
  qed
qed

lemma migrate_from_cap:
  "m \<le> MAX_IRQ_MIGRATE_PER_TICK \<Longrightarrow>
     fst (snd (migrate_from p to irq m calls)) \<le> MAX_IRQ_MIGRATE_PER_TICK"
proof (induction "nr_irqs p - irq" arbitrary: irq m calls)
  case 0
  then show ?case by (simp add: migrate_from_done)
next
  case (Suc k)
  then have *: "k = nr_irqs p - Suc irq" by auto
  show ?case
  proof (cases rule: migrate_from_cases [of p to irq m calls])
    case halt
    show ?thesis unfolding halt(1) using Suc.prems by simp
  next
    case pass
    show ?thesis unfolding pass(1) using Suc.prems by (rule Suc(1) [OF *])
  next
    case move
    from move(3) have "m + 1 \<le> MAX_IRQ_MIGRATE_PER_TICK" by simp
    then show ?thesis unfolding move(1) by (rule Suc(1) [OF *])
  qed
qed

lemma migrate_from_full_scan:
  "irq \<le> nr_irqs p \<Longrightarrow>
     fst (snd (migrate_from p to irq m calls)) < MAX_IRQ_MIGRATE_PER_TICK \<Longrightarrow>
     fst (migrate_from p to irq m calls) = nr_irqs p"
proof (induction "nr_irqs p - irq" arbitrary: irq m calls)
  case 0
  then show ?case by (simp add: migrate_from_done)
next
  case (Suc k)
  then have *: "k = nr_irqs p - Suc irq" "Suc irq \<le> nr_irqs p" by auto
  show ?case
  proof (cases rule: migrate_from_cases [of p to irq m calls])
    case halt
    from Suc.prems(2) [unfolded halt(1)] have "m < MAX_IRQ_MIGRATE_PER_TICK" by simp
    with halt(2) Suc.prems(1) have "irq = nr_irqs p" by auto
    then show ?thesis unfolding halt(1) by simp
  next
    case pass
    show ?thesis unfolding pass(1)
      using * Suc.prems(2) [unfolded pass(1)] by (rule Suc(1))
  next
    case move
    show ?thesis unfolding move(1)
      using * Suc.prems(2) [unfolded move(1)] by (rule Suc(1))
  qed
qed

lemma migrate_from_stops:
  "m < MAX_IRQ_MIGRATE_PER_TICK \<Longrightarrow>
     fst (snd (migrate_from p to irq m calls)) = MAX_IRQ_MIGRATE_PER_TICK \<Longrightarrow>
     snd (snd (migrate_from p to irq m calls)) \<noteq> [] \<and>
     fst (migrate_from p to irq m calls) = Suc (fst (last (snd (snd (migrate_from p to irq m calls)))))"
proof (induction "nr_irqs p - irq" arbitrary: irq m calls)
  case 0
  then have "migrate_from p to irq m calls = (irq, m, calls)"
    by (intro migrate_from_done) simp
  with "0.prems" show ?case by simp
next
  case (Suc k)
  then have *: "k = nr_irqs p - Suc irq" by auto
  show ?case
  proof (cases rule: migrate_from_cases [of p to irq m calls])
    case halt
    from Suc.prems(2) [unfolded halt(1)] Suc.prems(1) show ?thesis by simp
  next
    case pass
    show ?thesis unfolding pass(1)
      using * Suc.prems(1) Suc.prems(2) [unfolded pass(1)] by (rule Suc(1))
  next
    case move
    show ?thesis
    proof (cases "m + 1 < MAX_IRQ_MIGRATE_PER_TICK")
      case True
      show ?thesis unfolding move(1)
        using * True Suc.prems(2) [unfolded move(1)] by (rule Suc(1))
    next
      case False
      then have "migrate_from p to (Suc irq) (m + 1) (calls @ [(irq, to)])
                   = (Suc irq, m + 1, calls @ [(irq, to)])"
        by (intro migrate_from_done) simp
      then show ?thesis unfolding move(1) by simp
    qed
  qed
qed

subsection \<open>The shape of a tick, and the example platform evaluated\<close>

lemma demo_online: "for_each_online_cpu demo = [0, 1]"
  by code_simp

lemma demo_migrate:
  "migrate_irqs_limited demo 0 1 0 = (7, 5, [(1, 1), (3, 1), (4, 1), (5, 1), (6, 1)])"
  by code_simp

lemma demo_tick:
  "exotic_balance_irq demo (started demo) =
     Inr \<lparr>state = \<lparr>exoticbalance_enabled = True, cpu_irq_count = [2000, 100],
                    cpu_irq_last = [2000, 100], heavy_tick = True\<rparr>,
          migrator_call = Some (0, 1),
          affinity_calls = [(1, 1), (3, 1), (4, 1), (5, 1), (6, 1)],
          scheduled = [5000]\<rparr>"
  by code_simp

lemma demo_tick_fine:
  "exotic_balance_irq demo ((started demo)\<lparr>heavy_tick := True\<rparr>) =
     Inr \<lparr>state = \<lparr>exoticbalance_enabled = True, cpu_irq_count = [2000, 100],
                    cpu_irq_last = [2000, 100], heavy_tick = False\<rparr>,
          migrator_call = Some (0, 1),
          affinity_calls = [(1, 1), (3, 1), (4, 1), (5, 1), (6, 1)],
          scheduled = [5000]\<rparr>"
  by code_simp

lemma tick_disabled:
  "\<not> exoticbalance_enabled st \<Longrightarrow>
     exotic_balance_irq p st =
       Inr \<lparr>state = st, migrator_call = None, affinity_calls = [],
            scheduled = [schedule_next p (- 1)]\<rparr>"
  by (simp add: exotic_balance_irq_def)

lemma tick_fault:
  "exoticbalance_enabled st \<Longrightarrow> num_online_cpus p = 0 \<Longrightarrow>
     exotic_balance_irq p st = Inl Divide_Error"
  by (simp add: exotic_balance_irq_def Let_def)

lemma tick_enabled:
  assumes "exoticbalance_enabled st" and "num_online_cpus p \<noteq> 0"
  shows "exotic_balance_irq p st =
     (let s = tick_scan p st;
          call =
            (if 0 \<le> max_cpu s \<and> 0 \<le> min_cpu s \<and> max_cpu s \<noteq> min_cpu s \<and>
                dynamic_threshold_of p s \<le> max_irq s - min_irq s \<and>
                \<not> is_cpu_big p (min_cpu s) \<and> is_cpu_big p (max_cpu s) \<and>
                get_max_cpu_temp p < MAX_CPU_TEMP_THRESHOLD
             then Some (max_cpu s, min_cpu s) else None)
      in Inr \<lparr>state = st\<lparr>cpu_irq_count := tick_counts p st, cpu_irq_last := irq_last s,
                           heavy_tick := \<not> heavy_tick st\<rparr>,
              migrator_call = call,
              affinity_calls =
                (case call of
                   None \<Rightarrow> []
                 | Some (from, to) \<Rightarrow> snd (snd (migrate_irqs_limited p from to 0))),
              scheduled = [schedule_next p (max_cpu s)]\<rparr>)"
  using assms
  by (simp add: exotic_balance_irq_def tick_scan_def dynamic_threshold_of_def delta_avg_of_def
      Let_def)

lemma tick_affinity_calls:
  assumes "exotic_balance_irq p st = Inr out"
  shows "affinity_calls out =
           (case migrator_call out of
              None \<Rightarrow> []
            | Some (from, to) \<Rightarrow> snd (snd (migrate_irqs_limited p from to 0)))"
proof (cases "exoticbalance_enabled st")
  case False
  from assms show ?thesis
    unfolding tick_disabled [OF False] by auto
next
  case True
  show ?thesis
  proof (cases "num_online_cpus p = 0")
    case zero: True
    from assms show ?thesis unfolding tick_fault [OF True zero] by simp
  next
    case False
    from assms show ?thesis
      unfolding tick_enabled [OF True False] Let_def by auto
  qed
qed

text \<open>
  C2. One execution of the migrator, started as the tick starts it with a migrated count
  of zero, calls \<^verbatim>\<open>irq_set_affinity\<close> at most five times, and the count it reports is
  the number of those calls. Every line it moved lies below the value \<open>irq_exit\<close> of the
  loop variable at which the scan was left. When five lines were moved, the scan was
  left right after the fifth of them, so no later line was examined; otherwise it ran
  over the whole universe of lines. Hence a tick sets the affinity of at most five lines.
\<close>

theorem migrator_cap:
  "(case migrate_irqs_limited p from to 0 of
      (irq_exit, migrated, calls) \<Rightarrow>
        length calls \<le> 5 \<and> migrated = int (length calls) \<and>
        (\<forall>(irq, cpu) \<in> set calls. irq < irq_exit) \<and>
        (if length calls = 5 then irq_exit = Suc (fst (last calls))
         else irq_exit = nr_irqs p)) \<and>
   (\<forall>out. exotic_balance_irq p st = Inr out \<longrightarrow> length (affinity_calls out) \<le> 5)"
proof -
  have cap: "length (snd (snd (migrate_irqs_limited p a b 0))) \<le> 5" for a b
  proof -
    from migrate_from_calls [of p b 0 0 "[]"] obtain new where
      "snd (snd (migrate_from p b 0 0 [])) = new"
      "fst (snd (migrate_from p b 0 0 [])) = int (length new)"
      by auto
    moreover have "fst (snd (migrate_from p b 0 0 [])) \<le> MAX_IRQ_MIGRATE_PER_TICK"
      by (rule migrate_from_cap) (simp add: MAX_IRQ_MIGRATE_PER_TICK_def)
    ultimately show ?thesis
      by (simp add: migrate_irqs_limited_def MAX_IRQ_MIGRATE_PER_TICK_def)
  qed
  obtain irq_exit migrated calls where
    r: "migrate_from p to 0 0 [] = (irq_exit, migrated, calls)"
    by (cases "migrate_from p to 0 0 []") auto
  from migrate_from_calls [of p to 0 0 "[]"] r
  have calls: "migrated = int (length calls)" "\<forall>(irq, cpu) \<in> set calls. irq < irq_exit"
    by auto
  from cap [of "from" to] r have le: "length calls \<le> 5"
    by (simp add: migrate_irqs_limited_def)
  have exit: "if length calls = 5 then irq_exit = Suc (fst (last calls))
              else irq_exit = nr_irqs p"
  proof (cases "length calls = 5")
    case True
    with calls(1) r have "fst (snd (migrate_from p to 0 0 [])) = MAX_IRQ_MIGRATE_PER_TICK"
      by (simp add: MAX_IRQ_MIGRATE_PER_TICK_def)
    from migrate_from_stops [OF _ this] r True show ?thesis
      by (simp add: MAX_IRQ_MIGRATE_PER_TICK_def)
  next
    case False
    with le calls(1) r have "fst (snd (migrate_from p to 0 0 [])) < MAX_IRQ_MIGRATE_PER_TICK"
      by (simp add: MAX_IRQ_MIGRATE_PER_TICK_def)
    from migrate_from_full_scan [OF _ this] r False show ?thesis by simp
  qed
  have tick: "length (affinity_calls out) \<le> 5" if "exotic_balance_irq p st = Inr out" for out
    using tick_affinity_calls [OF that] cap
    by (cases "migrator_call out") auto
  from r calls le exit tick show ?thesis
    by (simp add: migrate_irqs_limited_def)
qed

theorem migrator_cap_witness:
  "migrate_irqs_limited demo 0 1 0 = (7, 5, [(1, 1), (3, 1), (4, 1), (5, 1), (6, 1)]) \<and>
   length [(1 :: nat, 1 :: int), (3, 1), (4, 1), (5, 1), (6, 1)] = 5 \<and>
   (7 :: nat) = Suc (fst (last [(1 :: nat, 1 :: int), (3, 1), (4, 1), (5, 1), (6, 1)])) \<and>
   (7 :: nat) < nr_irqs demo \<and>
   length (affinity_calls
     \<lparr>state = \<lparr>exoticbalance_enabled = True, cpu_irq_count = [2000, 100],
                cpu_irq_last = [2000, 100], heavy_tick = True\<rparr>,
      migrator_call = Some (0, 1),
      affinity_calls = [(1, 1), (3, 1), (4, 1), (5, 1), (6, 1)],
      scheduled = [5000]\<rparr>) \<le> 5"
  using migrator_cap [of demo 0 1 "started demo"] demo_migrate demo_tick
  by (simp add: demo_def)

text \<open>
  C3. A line that the blacklist filter classifies as protected is never given to
  \<^verbatim>\<open>irq_set_affinity\<close>: not by the migrator, whatever its source, destination and
  starting count, and not by a tick, whatever the module's variables are (so in the
  coarse as in the fine sampling mode) and whether or not the line's affinity can be set
  and the destination is idle.
\<close>

theorem protected_line_never_migrated:
  assumes "is_irq_blacklisted p irq"
  shows "(irq, cpu) \<notin> set (snd (snd (migrate_irqs_limited p from to migrated))) \<and>
         (\<forall>out. exotic_balance_irq p st = Inr out \<longrightarrow> (irq, cpu) \<notin> set (affinity_calls out))"
proof -
  have mig: "(irq, cpu) \<notin> set (snd (snd (migrate_irqs_limited p a b m)))" for a b m
    using migrate_from_calls [of p b 0 m "[]"] assms
    by (auto simp: migrate_irqs_limited_def)
  have "(irq, cpu) \<notin> set (affinity_calls out)" if "exotic_balance_irq p st = Inr out" for out
    using tick_affinity_calls [OF that] mig
    by (cases "migrator_call out") auto
  with mig show ?thesis by blast
qed

theorem protected_line_never_migrated_witness:
  "is_irq_blacklisted demo 0 \<and> irq_can_set_affinity demo 0 \<and> \<not> cpu_is_idle_wrap demo 1 \<and>
   exotic_balance_irq demo (started demo) =
     Inr \<lparr>state = \<lparr>exoticbalance_enabled = True, cpu_irq_count = [2000, 100],
                    cpu_irq_last = [2000, 100], heavy_tick = True\<rparr>,
          migrator_call = Some (0, 1),
          affinity_calls = [(1, 1), (3, 1), (4, 1), (5, 1), (6, 1)],
          scheduled = [5000]\<rparr> \<and>
   (0, 1) \<notin> set [(1 :: nat, 1 :: int), (3, 1), (4, 1), (5, 1), (6, 1)] \<and>
   exotic_balance_irq demo ((started demo)\<lparr>heavy_tick := True\<rparr>) =
     Inr \<lparr>state = \<lparr>exoticbalance_enabled = True, cpu_irq_count = [2000, 100],
                    cpu_irq_last = [2000, 100], heavy_tick = False\<rparr>,
          migrator_call = Some (0, 1),
          affinity_calls = [(1, 1), (3, 1), (4, 1), (5, 1), (6, 1)],
          scheduled = [5000]\<rparr>"
  using protected_line_never_migrated [OF demo_blacklisted_0, of 1 0 1 0 "started demo"]
    protected_line_never_migrated [OF demo_blacklisted_0, of 1 0 1 0
      "(started demo)\<lparr>heavy_tick := True\<rparr>"]
    demo_blacklisted_0 demo_tick demo_tick_fine
  by (simp add: demo_def cpu_is_idle_wrap_def)

subsection \<open>Properties of a tick\<close>

lemma num_online_cpus_nonzero:
  "num_online_cpus p \<noteq> 0 \<Longrightarrow> for_each_online_cpu p \<noteq> []"
  by (auto simp: num_online_cpus_def)

lemma demo_num_online: "num_online_cpus demo \<noteq> 0" "num_online_cpus demo_idle \<noteq> 0"
  by code_simp+

lemma started_fields:
  "exoticbalance_enabled (started p)" "\<not> heavy_tick (started p)"
  "cpu_irq_count (started p) = replicate (nr_cpu_ids p) 0"
  "cpu_irq_last (started p) = replicate (nr_cpu_ids p) 0"
  by (simp_all add: started_def)

lemma demo_after_tick_fields:
  "exoticbalance_enabled demo_after_tick" "heavy_tick demo_after_tick"
  "cpu_irq_count demo_after_tick = [2000, 100]" "cpu_irq_last demo_after_tick = [2000, 100]"
  by (simp_all add: demo_after_tick_def)

lemma demo_idle_tick:
  "exotic_balance_irq demo_idle (started demo_idle) =
     Inr \<lparr>state = demo_after_tick, migrator_call = Some (0, 1),
          affinity_calls = [(1, 1), (3, 1), (4, 1), (5, 1), (6, 1)],
          scheduled = [30000]\<rparr>"
  by code_simp

lemma demo_idle_scan: "max_cpu (tick_scan demo_idle (started demo_idle)) = 0"
  by code_simp

lemma demo_idle_skipped:
  "exotic_balance_irq demo_idle (demo_after_tick\<lparr>exoticbalance_enabled := False\<rparr>) =
     Inr \<lparr>state = demo_after_tick\<lparr>exoticbalance_enabled := False\<rparr>, migrator_call = None,
          affinity_calls = [], scheduled = [5000]\<rparr>"
  by code_simp

lemma demo_idle_cpu0: "cpu_is_idle_wrap demo_idle 0" "\<not> cpu_is_idle_wrap demo_idle (- 1)"
  by code_simp+

text \<open>
  C4. A tick that finds the enable flag off returns the module's variables exactly as
  they were (both counter arrays and the sampling mode included), does not call the
  migrator, sets no affinity, and still hands one delay, the short or the long one, to
  \<^verbatim>\<open>schedule_delayed_work\<close>. A tick that finds the flag on (with at least one CPU
  online) flips the sampling mode once, leaves the flag on and schedules the next tick
  once.
\<close>

theorem disabled_tick_skips:
  "(\<not> exoticbalance_enabled st \<longrightarrow>
      (\<exists>delay. exotic_balance_irq p st =
                 Inr \<lparr>state = st, migrator_call = None, affinity_calls = [],
                      scheduled = [delay]\<rparr> \<and>
               (delay = LIGHT_INTERVAL_MS \<or> delay = HEAVY_INTERVAL_MS))) \<and>
   (exoticbalance_enabled st \<and> num_online_cpus p \<noteq> 0 \<longrightarrow>
      (\<exists>out. exotic_balance_irq p st = Inr out \<and>
             heavy_tick (state out) = (\<not> heavy_tick st) \<and>
             exoticbalance_enabled (state out) \<and>
             length (scheduled out) = 1))"
proof (intro conjI impI)
  assume off: "\<not> exoticbalance_enabled st"
  show "\<exists>delay. exotic_balance_irq p st =
                 Inr \<lparr>state = st, migrator_call = None, affinity_calls = [],
                      scheduled = [delay]\<rparr> \<and>
               (delay = LIGHT_INTERVAL_MS \<or> delay = HEAVY_INTERVAL_MS)"
    unfolding tick_disabled [OF off] by (simp add: schedule_next_def)
next
  assume "exoticbalance_enabled st \<and> num_online_cpus p \<noteq> 0"
  then have on: "exoticbalance_enabled st" and n: "num_online_cpus p \<noteq> 0" by simp_all
  show "\<exists>out. exotic_balance_irq p st = Inr out \<and>
             heavy_tick (state out) = (\<not> heavy_tick st) \<and>
             exoticbalance_enabled (state out) \<and>
             length (scheduled out) = 1"
    unfolding tick_enabled [OF on n] using on by (simp add: Let_def)
qed

theorem disabled_tick_skips_witness:
  "\<not> exoticbalance_enabled (demo_after_tick\<lparr>exoticbalance_enabled := False\<rparr>) \<and>
   exotic_balance_irq demo_idle (demo_after_tick\<lparr>exoticbalance_enabled := False\<rparr>) =
     Inr \<lparr>state = demo_after_tick\<lparr>exoticbalance_enabled := False\<rparr>, migrator_call = None,
          affinity_calls = [], scheduled = [LIGHT_INTERVAL_MS]\<rparr> \<and>
   exoticbalance_enabled (started demo) \<and> num_online_cpus demo \<noteq> 0 \<and>
   \<not> heavy_tick (started demo) \<and>
   exotic_balance_irq demo (started demo) =
     Inr \<lparr>state = demo_after_tick, migrator_call = Some (0, 1),
          affinity_calls = [(1, 1), (3, 1), (4, 1), (5, 1), (6, 1)],
          scheduled = [LIGHT_INTERVAL_MS]\<rparr> \<and>
   heavy_tick demo_after_tick"
  using disabled_tick_skips [of "demo_after_tick\<lparr>exoticbalance_enabled := False\<rparr>" demo_idle]
    disabled_tick_skips [of "started demo" demo]
    demo_idle_skipped demo_num_online(1) demo_tick
  by (simp add: started_fields demo_after_tick_fields demo_after_tick_def [symmetric]
      LIGHT_INTERVAL_MS_def)

text \<open>
  C5 as stated fails on a skipped tick. On a kernel with the idle query, the first tick
  identifies CPU 0 as the busiest CPU. CPU 0 is idle when the second tick runs with the
  enable flag off, and yet that tick schedules the short interval: \<^verbatim>\<open>max_cpu\<close> is a
  local variable that starts at \<open>-1\<close> in every tick, so nothing of the previous tick's
  busiest CPU is left.
\<close>

theorem skipped_tick_delay_counterexample:
  "exotic_balance_irq demo_idle (started demo_idle) =
     Inr \<lparr>state = demo_after_tick, migrator_call = Some (0, 1),
          affinity_calls = [(1, 1), (3, 1), (4, 1), (5, 1), (6, 1)],
          scheduled = [HEAVY_INTERVAL_MS]\<rparr> \<and>
   max_cpu (tick_scan demo_idle (started demo_idle)) = 0 \<and>
   cpu_is_idle_wrap demo_idle 0 \<and>
   exotic_balance_irq demo_idle (demo_after_tick\<lparr>exoticbalance_enabled := False\<rparr>) =
     Inr \<lparr>state = demo_after_tick\<lparr>exoticbalance_enabled := False\<rparr>, migrator_call = None,
          affinity_calls = [], scheduled = [LIGHT_INTERVAL_MS]\<rparr> \<and>
   LIGHT_INTERVAL_MS \<noteq> HEAVY_INTERVAL_MS"
  using demo_idle_tick demo_idle_scan demo_idle_cpu0(1) demo_idle_skipped
  by (simp add: LIGHT_INTERVAL_MS_def HEAVY_INTERVAL_MS_def)

text \<open>
  C5, amended. Every tick schedules the long interval if the idle query holds for the
  value of \<^verbatim>\<open>max_cpu\<close> at the end of that tick, and the short interval otherwise. For
  an executed tick this value is the busiest CPU identified by this tick (or \<open>-1\<close> if
  none was); for a skipped tick it is \<open>-1\<close>, whatever earlier ticks found.
\<close>

theorem next_delay:
  "(\<not> exoticbalance_enabled st \<longrightarrow>
      (\<exists>out. exotic_balance_irq p st = Inr out \<and>
             scheduled out =
               [if cpu_is_idle_wrap p (- 1) then HEAVY_INTERVAL_MS else LIGHT_INTERVAL_MS])) \<and>
   (exoticbalance_enabled st \<and> num_online_cpus p \<noteq> 0 \<longrightarrow>
      (\<exists>out. exotic_balance_irq p st = Inr out \<and>
             scheduled out =
               [if cpu_is_idle_wrap p (max_cpu (tick_scan p st)) then HEAVY_INTERVAL_MS
                else LIGHT_INTERVAL_MS]))"
proof (intro conjI impI)
  assume off: "\<not> exoticbalance_enabled st"
  show "\<exists>out. exotic_balance_irq p st = Inr out \<and>
             scheduled out =
               [if cpu_is_idle_wrap p (- 1) then HEAVY_INTERVAL_MS else LIGHT_INTERVAL_MS]"
    unfolding tick_disabled [OF off] by (simp add: schedule_next_def)
next
  assume "exoticbalance_enabled st \<and> num_online_cpus p \<noteq> 0"
  then have on: "exoticbalance_enabled st" and n: "num_online_cpus p \<noteq> 0" by simp_all
  show "\<exists>out. exotic_balance_irq p st = Inr out \<and>
             scheduled out =
               [if cpu_is_idle_wrap p (max_cpu (tick_scan p st)) then HEAVY_INTERVAL_MS
                else LIGHT_INTERVAL_MS]"
    unfolding tick_enabled [OF on n] by (simp add: Let_def schedule_next_def)
qed

theorem next_delay_witness:
  "\<not> exoticbalance_enabled (demo_after_tick\<lparr>exoticbalance_enabled := False\<rparr>) \<and>
   \<not> cpu_is_idle_wrap demo_idle (- 1) \<and>
   exotic_balance_irq demo_idle (demo_after_tick\<lparr>exoticbalance_enabled := False\<rparr>) =
     Inr \<lparr>state = demo_after_tick\<lparr>exoticbalance_enabled := False\<rparr>, migrator_call = None,
          affinity_calls = [], scheduled = [LIGHT_INTERVAL_MS]\<rparr> \<and>
   exoticbalance_enabled (started demo_idle) \<and> num_online_cpus demo_idle \<noteq> 0 \<and>
   cpu_is_idle_wrap demo_idle (max_cpu (tick_scan demo_idle (started demo_idle))) \<and>
   exotic_balance_irq demo_idle (started demo_idle) =
     Inr \<lparr>state = demo_after_tick, migrator_call = Some (0, 1),
          affinity_calls = [(1, 1), (3, 1), (4, 1), (5, 1), (6, 1)],
          scheduled = [HEAVY_INTERVAL_MS]\<rparr>"
  using next_delay [of "demo_after_tick\<lparr>exoticbalance_enabled := False\<rparr>" demo_idle]
    next_delay [of "started demo_idle" demo_idle]
    demo_num_online(2) demo_idle_cpu0 demo_idle_scan demo_idle_skipped demo_idle_tick
  by (simp add: started_fields demo_after_tick_fields LIGHT_INTERVAL_MS_def
      HEAVY_INTERVAL_MS_def)

lemma delta_body_fields:
  "irq_last (delta_body cnt cpu s) = (irq_last s)[cpu := cnt ! cpu]"
  "delta_sum (delta_body cnt cpu s) = delta_sum s + (cnt ! cpu - irq_last s ! cpu)"
  "max_irq (delta_body cnt cpu s) =
     (if max_irq s < cnt ! cpu - irq_last s ! cpu then cnt ! cpu - irq_last s ! cpu
      else max_irq s)"
  "max_cpu (delta_body cnt cpu s) =
     (if max_irq s < cnt ! cpu - irq_last s ! cpu then int cpu else max_cpu s)"
  "min_irq (delta_body cnt cpu s) =
     (if cnt ! cpu - irq_last s ! cpu < min_irq s then cnt ! cpu - irq_last s ! cpu
      else min_irq s)"
  "min_cpu (delta_body cnt cpu s) =
     (if cnt ! cpu - irq_last s ! cpu < min_irq s then int cpu else min_cpu s)"
  by (simp_all add: delta_body_def Let_def)

lemma delta_body_zero:
  assumes "cnt ! cpu = irq_last s ! cpu" and "min_irq s = 0"
  shows "delta_body cnt cpu s = s"
  using assms by (simp add: delta_body_def Let_def)

lemma delta_loop_zero:
  assumes "\<forall>c \<in> set cpus. cnt ! c = irq_last s ! c" and "min_irq s = 0"
  shows "delta_loop cnt cpus s = s"
  using assms by (induction cpus) (simp_all add: delta_body_zero)

lemma delta_body_zero_first:
  assumes "cnt ! cpu = lst ! cpu"
  shows "delta_body cnt cpu (scan_init lst) = (scan_init lst)\<lparr>min_irq := 0, min_cpu := int cpu\<rparr>"
  using assms by (simp add: delta_body_def Let_def scan_init_def UINT_MAX_def word_gt_0)

lemma delta_loop_all_zero:
  assumes "\<forall>c \<in> set cpus. cnt ! c = lst ! c" and "cpus \<noteq> []"
  shows "delta_loop cnt cpus (scan_init lst) =
           (scan_init lst)\<lparr>min_irq := 0, min_cpu := int (hd cpus)\<rparr>"
proof (cases cpus)
  case Nil
  with assms(2) show ?thesis by simp
next
  case (Cons c cs)
  with assms(1) have c: "cnt ! c = lst ! c" and cs: "\<forall>c \<in> set cs. cnt ! c = lst ! c"
    by simp_all
  let ?s = "(scan_init lst)\<lparr>min_irq := 0, min_cpu := int c\<rparr>"
  have "delta_loop cnt cs ?s = ?s"
    by (rule delta_loop_zero) (use cs in \<open>simp_all add: scan_init_def\<close>)
  with Cons c show ?thesis by (simp add: delta_body_zero_first)
qed

text \<open>
  C10. In an executed tick in which the delta of every online CPU is zero, no busiest
  CPU is identified (\<^verbatim>\<open>max_cpu\<close> stays \<open>-1\<close>), the idlest CPU is the first online CPU,
  the migrator is not called, and the one delay that is scheduled is the long interval
  if the idle query holds for \<open>-1\<close> and the short interval otherwise.
\<close>

theorem all_deltas_zero:
  assumes "exoticbalance_enabled st" and "num_online_cpus p \<noteq> 0"
    and "\<forall>cpu \<in> set (for_each_online_cpu p). tick_counts p st ! cpu - cpu_irq_last st ! cpu = 0"
  shows "max_cpu (tick_scan p st) = - 1 \<and>
         min_cpu (tick_scan p st) = int (hd (for_each_online_cpu p)) \<and>
         (\<exists>out. exotic_balance_irq p st = Inr out \<and> migrator_call out = None \<and>
                affinity_calls out = [] \<and>
                scheduled out =
                  [if cpu_is_idle_wrap p (- 1) then HEAVY_INTERVAL_MS
                   else LIGHT_INTERVAL_MS])"
proof -
  from assms(2) have ne: "for_each_online_cpu p \<noteq> []"
    by (rule num_online_cpus_nonzero)
  from assms(3) have "\<forall>cpu \<in> set (for_each_online_cpu p). tick_counts p st ! cpu = cpu_irq_last st ! cpu"
    by simp
  from delta_loop_all_zero [OF this ne]
  have scan: "tick_scan p st =
      (scan_init (cpu_irq_last st))\<lparr>min_irq := 0, min_cpu := int (hd (for_each_online_cpu p))\<rparr>"
    by (simp add: tick_scan_def)
  then have m: "max_cpu (tick_scan p st) = - 1"
      "min_cpu (tick_scan p st) = int (hd (for_each_online_cpu p))"
    by (simp_all add: scan_init_def)
  have "\<exists>out. exotic_balance_irq p st = Inr out \<and> migrator_call out = None \<and>
                affinity_calls out = [] \<and>
                scheduled out =
                  [if cpu_is_idle_wrap p (- 1) then HEAVY_INTERVAL_MS
                   else LIGHT_INTERVAL_MS]"
    unfolding tick_enabled [OF assms(1,2)] using m(1) by (simp add: Let_def schedule_next_def)
  with m show ?thesis by simp
qed

lemma demo_second_counts:
  "tick_counts demo_unset_idle demo_after_tick = [2000, 100]"
  "tick_counts demo_idle demo_after_tick = [2000, 100]"
  by code_simp+

lemma demo_zero_online:
  "for_each_online_cpu demo_unset_idle = [0, 1]" "for_each_online_cpu demo_idle = [0, 1]"
  "num_online_cpus demo_unset_idle \<noteq> 0"
  by code_simp+

lemma demo_zero_ticks:
  "exotic_balance_irq demo_unset_idle demo_after_tick =
     Inr \<lparr>state = demo_after_tick\<lparr>heavy_tick := False\<rparr>, migrator_call = None,
          affinity_calls = [], scheduled = [30000]\<rparr>"
  "exotic_balance_irq demo_idle demo_after_tick =
     Inr \<lparr>state = demo_after_tick\<lparr>heavy_tick := False\<rparr>, migrator_call = None,
          affinity_calls = [], scheduled = [5000]\<rparr>"
  by code_simp+

lemma demo_unset_idle_query:
  "cpu_is_idle_wrap demo_unset_idle (- 1)" "\<not> cpu_is_idle_wrap demo_unset_idle 0"
  "\<not> cpu_is_idle_wrap demo_unset_idle 1"
  by code_simp+

theorem all_deltas_zero_witness:
  "exoticbalance_enabled demo_after_tick \<and> num_online_cpus demo_unset_idle \<noteq> 0 \<and>
   for_each_online_cpu demo_unset_idle = [0, 1] \<and>
   tick_counts demo_unset_idle demo_after_tick ! 0 - cpu_irq_last demo_after_tick ! 0 = 0 \<and>
   tick_counts demo_unset_idle demo_after_tick ! 1 - cpu_irq_last demo_after_tick ! 1 = 0 \<and>
   max_cpu (tick_scan demo_unset_idle demo_after_tick) = - 1 \<and>
   min_cpu (tick_scan demo_unset_idle demo_after_tick) = 0 \<and>
   cpu_is_idle_wrap demo_unset_idle (- 1) \<and>
   \<not> cpu_is_idle_wrap demo_unset_idle 0 \<and> \<not> cpu_is_idle_wrap demo_unset_idle 1 \<and>
   exotic_balance_irq demo_unset_idle demo_after_tick =
     Inr \<lparr>state = demo_after_tick\<lparr>heavy_tick := False\<rparr>, migrator_call = None,
          affinity_calls = [], scheduled = [HEAVY_INTERVAL_MS]\<rparr> \<and>
   num_online_cpus demo_idle \<noteq> 0 \<and>
   tick_counts demo_idle demo_after_tick ! 0 - cpu_irq_last demo_after_tick ! 0 = 0 \<and>
   tick_counts demo_idle demo_after_tick ! 1 - cpu_irq_last demo_after_tick ! 1 = 0 \<and>
   min_cpu (tick_scan demo_idle demo_after_tick) = 0 \<and>
   cpu_is_idle_wrap demo_idle 0 \<and> \<not> cpu_is_idle_wrap demo_idle (- 1) \<and>
   exotic_balance_irq demo_idle demo_after_tick =
     Inr \<lparr>state = demo_after_tick\<lparr>heavy_tick := False\<rparr>, migrator_call = None,
          affinity_calls = [], scheduled = [LIGHT_INTERVAL_MS]\<rparr>"
proof -
  have z1: "\<forall>cpu \<in> set (for_each_online_cpu demo_unset_idle).
      tick_counts demo_unset_idle demo_after_tick ! cpu - cpu_irq_last demo_after_tick ! cpu = 0"
    by (simp add: demo_zero_online demo_second_counts demo_after_tick_fields)
  have z2: "\<forall>cpu \<in> set (for_each_online_cpu demo_idle).
      tick_counts demo_idle demo_after_tick ! cpu - cpu_irq_last demo_after_tick ! cpu = 0"
    by (simp add: demo_zero_online demo_second_counts demo_after_tick_fields)
  note a = all_deltas_zero [OF demo_after_tick_fields(1) demo_zero_online(3) z1]
  note b = all_deltas_zero [OF demo_after_tick_fields(1) demo_num_online(2) z2]
  have c: "tick_counts demo_unset_idle demo_after_tick ! 0 - cpu_irq_last demo_after_tick ! 0 = 0"
      "tick_counts demo_unset_idle demo_after_tick ! 1 - cpu_irq_last demo_after_tick ! 1 = 0"
      "tick_counts demo_idle demo_after_tick ! 0 - cpu_irq_last demo_after_tick ! 0 = 0"
      "tick_counts demo_idle demo_after_tick ! 1 - cpu_irq_last demo_after_tick ! 1 = 0"
    by (simp_all add: demo_second_counts demo_after_tick_fields)
  have h: "hd (for_each_online_cpu demo_unset_idle) = 0" "hd (for_each_online_cpu demo_idle) = 0"
    by (simp_all add: demo_zero_online)
  from a b c show ?thesis
    unfolding h
    by (simp add: demo_after_tick_fields demo_zero_online demo_num_online demo_zero_ticks
        demo_unset_idle_query demo_idle_cpu0 LIGHT_INTERVAL_MS_def HEAVY_INTERVAL_MS_def)
qed

lemma set_for_each_online_cpu:
  "set (for_each_online_cpu p) = {cpu. cpu < nr_cpu_ids p \<and> cpu_online p cpu}"
  by (auto simp: for_each_online_cpu_def)

lemma length_sample_cpus: "length (sample_cpus p irq cpus cnt) = length cnt"
  by (induction cpus arbitrary: cnt) simp_all

lemma length_sample_irqs: "length (sample_irqs p heavy irqs cnt) = length cnt"
  by (induction irqs arbitrary: cnt) (auto simp: length_sample_cpus)

lemma sample_cpus_other:
  "cpu \<notin> set cpus \<Longrightarrow> sample_cpus p irq cpus cnt ! cpu = cnt ! cpu"
  by (induction cpus arbitrary: cnt) auto

lemma sample_irqs_other:
  "cpu \<notin> set (for_each_online_cpu p) \<Longrightarrow> sample_irqs p heavy irqs cnt ! cpu = cnt ! cpu"
  by (induction irqs arbitrary: cnt) (auto simp: sample_cpus_other)

lemma tick_enabled_state:
  assumes "exoticbalance_enabled st" and "num_online_cpus p \<noteq> 0"
  obtains out where "exotic_balance_irq p st = Inr out"
    and "state out = st\<lparr>cpu_irq_count := tick_counts p st,
                            cpu_irq_last := irq_last (tick_scan p st),
                            heavy_tick := \<not> heavy_tick st\<rparr>"
    and "scheduled out = [schedule_next p (max_cpu (tick_scan p st))]"
  using tick_enabled [OF assms] by (simp add: Let_def)

lemma memset_zero_full: "length xs = n \<Longrightarrow> memset_zero n xs = replicate n 0"
  by (simp add: memset_zero_def)

lemma tick_counts_fresh:
  "length (cpu_irq_count st) = nr_cpu_ids p \<Longrightarrow>
     tick_counts p st =
       sample_irqs p (heavy_tick st) [0..<nr_irqs p] (replicate (nr_cpu_ids p) 0)"
  by (simp add: tick_counts_def memset_zero_full)

lemma length_delta_loop:
  "length (irq_last (delta_loop cnt cpus s)) = length (irq_last s)"
  by (induction cpus arbitrary: s) (simp_all add: delta_body_fields)

lemma delta_loop_irq_last:
  "cpu < length (irq_last s) \<Longrightarrow>
     irq_last (delta_loop cnt cpus s) ! cpu =
       (if cpu \<in> set cpus then cnt ! cpu else irq_last s ! cpu)"
proof (induction cpus arbitrary: s)
  case Nil
  show ?case by simp
next
  case (Cons c cpus)
  from Cons.prems have "cpu < length (irq_last (delta_body cnt c s))"
    by (simp add: delta_body_fields)
  from Cons.IH [OF this] Cons.prems show ?case
    by (cases "cpu = c") (simp_all add: delta_body_fields)
qed

text \<open>
  C6, amended. A skipped tick leaves both counter arrays as they were. An executed tick
  recomputes \<^verbatim>\<open>cpu_irq_count\<close> from an all-zero array, whatever it held before; at its
  end, for every online CPU id \<^verbatim>\<open>cpu_irq_last\<close> holds the fresh count, while for every
  offline CPU id of the array the fresh count is zero and \<^verbatim>\<open>cpu_irq_last\<close> keeps the
  value it had before the tick.
\<close>

theorem last_sample_updated:
  assumes "length (cpu_irq_count st) = nr_cpu_ids p"
    and "length (cpu_irq_last st) = nr_cpu_ids p"
  shows
   "(\<not> exoticbalance_enabled st \<longrightarrow>
       (\<exists>out. exotic_balance_irq p st = Inr out \<and>
              cpu_irq_last (state out) = cpu_irq_last st \<and>
              cpu_irq_count (state out) = cpu_irq_count st)) \<and>
    (exoticbalance_enabled st \<and> num_online_cpus p \<noteq> 0 \<longrightarrow>
       (\<exists>out. exotic_balance_irq p st = Inr out \<and>
              cpu_irq_count (state out) =
                sample_irqs p (heavy_tick st) [0..<nr_irqs p] (replicate (nr_cpu_ids p) 0) \<and>
              (\<forall>cpu < nr_cpu_ids p.
                 if cpu_online p cpu
                 then cpu_irq_last (state out) ! cpu = cpu_irq_count (state out) ! cpu
                 else cpu_irq_last (state out) ! cpu = cpu_irq_last st ! cpu \<and>
                      cpu_irq_count (state out) ! cpu = 0)))"
proof (intro conjI impI)
  assume off: "\<not> exoticbalance_enabled st"
  show "\<exists>out. exotic_balance_irq p st = Inr out \<and>
              cpu_irq_last (state out) = cpu_irq_last st \<and>
              cpu_irq_count (state out) = cpu_irq_count st"
    unfolding tick_disabled [OF off] by simp
next
  assume "exoticbalance_enabled st \<and> num_online_cpus p \<noteq> 0"
  then have on: "exoticbalance_enabled st" and n: "num_online_cpus p \<noteq> 0" by simp_all
  let ?cnt = "tick_counts p st"
  let ?lst = "irq_last (tick_scan p st)"
  have fresh: "?cnt = sample_irqs p (heavy_tick st) [0..<nr_irqs p] (replicate (nr_cpu_ids p) 0)"
    by (rule tick_counts_fresh [OF assms(1)])
  have each: "if cpu_online p cpu then ?lst ! cpu = ?cnt ! cpu
              else ?lst ! cpu = cpu_irq_last st ! cpu \<and> ?cnt ! cpu = 0"
    if cpu: "cpu < nr_cpu_ids p" for cpu
  proof -
    from cpu assms(2) have "cpu < length (irq_last (scan_init (cpu_irq_last st)))"
      by (simp add: scan_init_def)
    from delta_loop_irq_last [OF this, of ?cnt "for_each_online_cpu p"]
    have lst: "?lst ! cpu =
        (if cpu \<in> set (for_each_online_cpu p) then ?cnt ! cpu else cpu_irq_last st ! cpu)"
      by (simp add: tick_scan_def scan_init_def)
    show ?thesis
    proof (cases "cpu_online p cpu")
      case True
      with cpu lst show ?thesis by (simp add: set_for_each_online_cpu)
    next
      case False
      then have out: "cpu \<notin> set (for_each_online_cpu p)"
        by (simp add: set_for_each_online_cpu)
      with cpu have "?cnt ! cpu = 0"
        unfolding fresh by (simp add: sample_irqs_other)
      with out lst False show ?thesis by simp
    qed
  qed
  from tick_enabled_state [OF on n] obtain out where
    out: "exotic_balance_irq p st = Inr out"
      "state out = st\<lparr>cpu_irq_count := ?cnt, cpu_irq_last := ?lst,
                         heavy_tick := \<not> heavy_tick st\<rparr>"
    by blast
  from out(2) have fields: "cpu_irq_count (state out) = ?cnt" "cpu_irq_last (state out) = ?lst"
    by simp_all
  have "exotic_balance_irq p st = Inr out \<and>
        cpu_irq_count (state out) =
          sample_irqs p (heavy_tick st) [0..<nr_irqs p] (replicate (nr_cpu_ids p) 0) \<and>
        (\<forall>cpu < nr_cpu_ids p.
           if cpu_online p cpu
           then cpu_irq_last (state out) ! cpu = cpu_irq_count (state out) ! cpu
           else cpu_irq_last (state out) ! cpu = cpu_irq_last st ! cpu \<and>
                cpu_irq_count (state out) ! cpu = 0)"
    unfolding fields using out(1) fresh each by blast
  then show "\<exists>out. exotic_balance_irq p st = Inr out \<and>
              cpu_irq_count (state out) =
                sample_irqs p (heavy_tick st) [0..<nr_irqs p] (replicate (nr_cpu_ids p) 0) \<and>
              (\<forall>cpu < nr_cpu_ids p.
                 if cpu_online p cpu
                 then cpu_irq_last (state out) ! cpu = cpu_irq_count (state out) ! cpu
                 else cpu_irq_last (state out) ! cpu = cpu_irq_last st ! cpu \<and>
                      cpu_irq_count (state out) ! cpu = 0)"
    by (rule exI)
qed

lemma demo_offline_tick:
  "exotic_balance_irq demo_offline demo_after_tick =
     Inr \<lparr>state = \<lparr>exoticbalance_enabled = True, cpu_irq_count = [2000, 0],
                    cpu_irq_last = [2000, 100], heavy_tick = False\<rparr>,
          migrator_call = None, affinity_calls = [], scheduled = [5000]\<rparr>"
  by code_simp

lemma demo_offline_fields:
  "nr_cpu_ids demo_offline = 2" "\<not> cpu_online demo_offline 1" "cpu_online demo_offline 0"
  "num_online_cpus demo_offline \<noteq> 0"
  by code_simp+

text \<open>
  C6 as stated fails for an offline CPU. After a first tick with both CPUs online,
  \<^verbatim>\<open>cpu_irq_last[1]\<close> is 100. CPU 1 then goes offline: the second tick computes a fresh
  count of 0 for it and leaves \<^verbatim>\<open>cpu_irq_last[1]\<close> at 100, since the delta loop visits
  online CPUs only.
\<close>

theorem last_sample_all_cpus_counterexample:
  "exotic_balance_irq demo (started demo) =
     Inr \<lparr>state = demo_after_tick, migrator_call = Some (0, 1),
          affinity_calls = [(1, 1), (3, 1), (4, 1), (5, 1), (6, 1)],
          scheduled = [5000]\<rparr> \<and>
   exotic_balance_irq demo_offline demo_after_tick =
     Inr \<lparr>state = \<lparr>exoticbalance_enabled = True, cpu_irq_count = [2000, 0],
                    cpu_irq_last = [2000, 100], heavy_tick = False\<rparr>,
          migrator_call = None, affinity_calls = [], scheduled = [5000]\<rparr> \<and>
   (1 :: nat) < nr_cpu_ids demo_offline \<and>
   [2000, 100 :: u32] ! 1 \<noteq> [2000, 0 :: u32] ! 1"
  using demo_tick demo_offline_tick
  by (simp add: demo_after_tick_def demo_offline_fields)

theorem last_sample_updated_witness:
  "length (cpu_irq_count demo_after_tick) = nr_cpu_ids demo_offline \<and>
   length (cpu_irq_last demo_after_tick) = nr_cpu_ids demo_offline \<and>
   exoticbalance_enabled demo_after_tick \<and> num_online_cpus demo_offline \<noteq> 0 \<and>
   exotic_balance_irq demo_offline demo_after_tick =
     Inr \<lparr>state = \<lparr>exoticbalance_enabled = True, cpu_irq_count = [2000, 0],
                    cpu_irq_last = [2000, 100], heavy_tick = False\<rparr>,
          migrator_call = None, affinity_calls = [], scheduled = [5000]\<rparr> \<and>
   cpu_online demo_offline 0 \<and> [2000, 100 :: u32] ! 0 = [2000, 0 :: u32] ! 0 \<and>
   \<not> cpu_online demo_offline 1 \<and> [2000, 100 :: u32] ! 1 = cpu_irq_last demo_after_tick ! 1 \<and>
   [2000, 0 :: u32] ! 1 = 0 \<and>
   \<not> exoticbalance_enabled (demo_after_tick\<lparr>exoticbalance_enabled := False\<rparr>) \<and>
   exotic_balance_irq demo_idle (demo_after_tick\<lparr>exoticbalance_enabled := False\<rparr>) =
     Inr \<lparr>state = demo_after_tick\<lparr>exoticbalance_enabled := False\<rparr>, migrator_call = None,
          affinity_calls = [], scheduled = [5000]\<rparr>"
proof -
  have len: "length (cpu_irq_count demo_after_tick) = nr_cpu_ids demo_offline"
      "length (cpu_irq_last demo_after_tick) = nr_cpu_ids demo_offline"
    by (simp_all add: demo_after_tick_fields demo_offline_fields)
  have idx: "[2000, 100 :: u32] ! 0 = [2000, 0 :: u32] ! 0"
      "[2000, 100 :: u32] ! 1 = cpu_irq_last demo_after_tick ! 1" "[2000, 0 :: u32] ! 1 = 0"
    by (simp_all add: demo_after_tick_fields)
  have "\<not> exoticbalance_enabled (demo_after_tick\<lparr>exoticbalance_enabled := False\<rparr>)"
    by simp
  with last_sample_updated [OF len] len idx demo_offline_tick demo_idle_skipped
    demo_after_tick_fields(1) demo_offline_fields
  show ?thesis by blast
qed

subsection \<open>The average and the threshold\<close>

lemma wrap_tick_1:
  "exotic_balance_irq wrap_demo (started wrap_demo) =
     Inr \<lparr>state = wrap_after_1, migrator_call = None, affinity_calls = [],
          scheduled = [5000]\<rparr>"
  by code_simp

lemma wrap_tick_2:
  "exotic_balance_irq wrap_demo wrap_after_1 =
     Inr \<lparr>state = wrap_after_2, migrator_call = None, affinity_calls = [],
          scheduled = [5000]\<rparr>"
  by code_simp

lemma wrap_scan_3:
  "tick_scan wrap_demo wrap_after_2 =
     \<lparr>max_irq = 4294967293, min_irq = 0, max_cpu = 0, min_cpu = 1, delta_sum = 4294967293,
      irq_last = [0, 0]\<rparr>"
  by code_simp

lemma wrap_avg_3: "delta_avg_of wrap_demo (tick_scan wrap_demo wrap_after_2) = 2147483646"
  by code_simp

lemma wrap_online: "length (for_each_online_cpu wrap_demo) = 2"
  by code_simp

lemma length_online_le: "length (for_each_online_cpu p) \<le> nr_cpu_ids p"
  using length_filter_le [of "cpu_online p" "[0..<nr_cpu_ids p]"]
  by (simp add: for_each_online_cpu_def)

lemma unat_num_online_cpus:
  "nr_cpu_ids p < 2 ^ 32 \<Longrightarrow> unat (num_online_cpus p) = length (for_each_online_cpu p)"
  using length_online_le [of p] by (simp add: num_online_cpus_def unat_of_nat)

lemma unat_delta_avg:
  "nr_cpu_ids p < 2 ^ 32 \<Longrightarrow>
     unat (delta_avg_of p s) = unat (delta_sum s) div length (for_each_online_cpu p)"
  by (simp add: delta_avg_of_def unat_div unat_num_online_cpus)

lemma sint_nonneg_uint:
  fixes w :: u32
  assumes "0 \<le> sint w"
  shows "sint w = uint w"
proof -
  from sint_less [of w] have "sint w < 2 ^ 31" by simp
  also have "(2 :: int) ^ 31 < 2 ^ 32" by simp
  finally have "sint w < 2 ^ 32" .
  with assms have "take_bit 32 (sint w) = sint w"
    by (intro take_bit_int_eq_self)
  then show ?thesis using uint_sint [of w] by simp
qed

lemma sint_small:
  fixes w :: u32
  assumes "unat w < 2 ^ 31"
  shows "sint w = int (unat w)"
proof -
  from assms have "int (unat w) < int (2 ^ 31)" by (simp only: of_nat_less_iff)
  then have lt: "uint w < 2 ^ 31" by simp
  have "- (2 ^ 31) \<le> (0 :: int)" by simp
  also have "0 \<le> uint w" by simp
  finally have ge: "- (2 ^ 31) \<le> uint w" .
  from ge lt have "signed_take_bit 31 (uint w) = uint w"
    by (rule signed_take_bit_int_eq_self)
  then show ?thesis by (simp add: sint_uint)
qed

lemma uint_sum_list:
  fixes ws :: "u32 list"
  shows "uint (sum_list ws) = sum_list (map uint ws) mod 2 ^ 32"
proof (induction ws)
  case Nil
  show ?case by simp
next
  case (Cons w ws)
  have "uint (w + sum_list ws) = (uint w + uint (sum_list ws)) mod 2 ^ 32"
    by (simp add: uint_word_ariths(1))
  also have "\<dots> = (uint w + sum_list (map uint ws) mod 2 ^ 32) mod 2 ^ 32"
    by (simp only: Cons.IH)
  also have "\<dots> = (uint w + sum_list (map uint ws)) mod 2 ^ 32"
    by (rule mod_add_right_eq)
  finally show ?case by simp
qed

lemma sum_list_uint_nonneg:
  fixes ws :: "u32 list"
  shows "0 \<le> sum_list (map uint ws)"
  by (induction ws) simp_all

lemma delta_loop_sum:
  "distinct cpus \<Longrightarrow>
     delta_sum (delta_loop cnt cpus s) =
       delta_sum s + sum_list (map (\<lambda>cpu. cnt ! cpu - irq_last s ! cpu) cpus)"
proof (induction cpus arbitrary: s)
  case Nil
  show ?case by simp
next
  case (Cons c cpus)
  from Cons.prems have d: "distinct cpus" and notin: "c \<notin> set cpus" by simp_all
  have same: "map (\<lambda>cpu. cnt ! cpu - irq_last (delta_body cnt c s) ! cpu) cpus =
              map (\<lambda>cpu. cnt ! cpu - irq_last s ! cpu) cpus"
  proof (rule map_cong [OF refl])
    fix cpu assume "cpu \<in> set cpus"
    with notin have "cpu \<noteq> c" by auto
    then show "cnt ! cpu - irq_last (delta_body cnt c s) ! cpu = cnt ! cpu - irq_last s ! cpu"
      by (simp add: delta_body_fields)
  qed
  from Cons.IH [OF d, of "delta_body cnt c s"] show ?case
    unfolding same by (simp add: delta_body_fields add.assoc)
qed

lemma distinct_online: "distinct (for_each_online_cpu p)"
  by (simp add: for_each_online_cpu_def)

lemma tick_scan_sum:
  "uint (delta_sum (tick_scan p st)) =
     sum_list (map (\<lambda>cpu. uint (tick_counts p st ! cpu - cpu_irq_last st ! cpu))
       (for_each_online_cpu p)) mod 2 ^ 32"
proof -
  have "delta_sum (tick_scan p st) =
          sum_list (map (\<lambda>cpu. tick_counts p st ! cpu - cpu_irq_last st ! cpu)
            (for_each_online_cpu p))"
    using delta_loop_sum [OF distinct_online, of "tick_counts p st" p "scan_init (cpu_irq_last st)"]
    by (simp add: tick_scan_def scan_init_def)
  then show ?thesis
    by (simp only: uint_sum_list map_map comp_def)
qed

text \<open>
  C9. In a tick with at least one CPU online, \<^verbatim>\<open>delta_avg\<close> times the number of online
  CPUs is at most \<^verbatim>\<open>delta_sum\<close>, both being the unsigned 32-bit values on which the
  code's division works. That value of \<^verbatim>\<open>delta_sum\<close> is the sum of the deltas of the
  online CPUs reduced modulo \<open>2^32\<close>, so the product is at most the sum of the deltas
  itself as well.
\<close>

theorem delta_avg_floor:
  assumes "for_each_online_cpu p \<noteq> []" and "nr_cpu_ids p < 2 ^ 32"
  shows "unat (delta_avg_of p (tick_scan p st)) * length (for_each_online_cpu p)
           \<le> unat (delta_sum (tick_scan p st)) \<and>
         uint (delta_sum (tick_scan p st)) =
           sum_list (map (\<lambda>cpu. uint (tick_counts p st ! cpu - cpu_irq_last st ! cpu))
             (for_each_online_cpu p)) mod 2 ^ 32 \<and>
         uint (delta_avg_of p (tick_scan p st)) * int (length (for_each_online_cpu p))
           \<le> sum_list (map (\<lambda>cpu. uint (tick_counts p st ! cpu - cpu_irq_last st ! cpu))
                 (for_each_online_cpu p))"
proof -
  let ?n = "length (for_each_online_cpu p)"
  let ?sum = "delta_sum (tick_scan p st)"
  let ?avg = "delta_avg_of p (tick_scan p st)"
  let ?ds = "map (\<lambda>cpu. tick_counts p st ! cpu - cpu_irq_last st ! cpu) (for_each_online_cpu p)"
  let ?total = "sum_list (map (\<lambda>cpu. uint (tick_counts p st ! cpu - cpu_irq_last st ! cpu))
                  (for_each_online_cpu p))"
  have avg: "unat ?avg = unat ?sum div ?n"
    by (rule unat_delta_avg [OF assms(2)])
  then have floor: "unat ?avg * ?n \<le> unat ?sum" by simp
  have acc: "uint ?sum = ?total mod 2 ^ 32" by (rule tick_scan_sum)
  have "?total = sum_list (map uint ?ds)" by (simp add: comp_def)
  then have "0 \<le> ?total" by (simp only: sum_list_uint_nonneg)
  then have "?total mod 2 ^ 32 \<le> ?total" by (rule zmod_le_nonneg_dividend)
  with acc have le: "uint ?sum \<le> ?total" by simp
  from floor have "int (unat ?avg) * int ?n \<le> int (unat ?sum)"
    by (simp only: of_nat_mult [symmetric] of_nat_le_iff)
  then have "uint ?avg * int ?n \<le> uint ?sum" by simp
  from this le have "uint ?avg * int ?n \<le> ?total" by (rule order_trans)
  with floor acc show ?thesis by blast
qed

lemma wrap_counts_3: "tick_counts wrap_demo wrap_after_2 = [0, 0]"
  by code_simp

lemma wrap_online_cpus: "for_each_online_cpu wrap_demo = [0, 1]"
  by code_simp

theorem delta_avg_floor_witness:
  "for_each_online_cpu wrap_demo \<noteq> [] \<and> nr_cpu_ids wrap_demo < 2 ^ 32 \<and>
   exotic_balance_irq wrap_demo (started wrap_demo) =
     Inr \<lparr>state = wrap_after_1, migrator_call = None, affinity_calls = [],
          scheduled = [5000]\<rparr> \<and>
   exotic_balance_irq wrap_demo wrap_after_1 =
     Inr \<lparr>state = wrap_after_2, migrator_call = None, affinity_calls = [],
          scheduled = [5000]\<rparr> \<and>
   for_each_online_cpu wrap_demo = [0, 1] \<and>
   uint (tick_counts wrap_demo wrap_after_2 ! 0 - cpu_irq_last wrap_after_2 ! 0) = 4294967293 \<and>
   uint (tick_counts wrap_demo wrap_after_2 ! 1 - cpu_irq_last wrap_after_2 ! 1) = 0 \<and>
   unat (delta_sum (tick_scan wrap_demo wrap_after_2)) = 4294967293 \<and>
   unat (delta_avg_of wrap_demo (tick_scan wrap_demo wrap_after_2)) = 2147483646 \<and>
   unat (delta_avg_of wrap_demo (tick_scan wrap_demo wrap_after_2)) *
     length (for_each_online_cpu wrap_demo)
     \<le> unat (delta_sum (tick_scan wrap_demo wrap_after_2))"
proof -
  have ne: "for_each_online_cpu wrap_demo \<noteq> []" by (simp add: wrap_online_cpus)
  have n: "nr_cpu_ids wrap_demo < 2 ^ 32" by (simp add: wrap_demo_def)
  have deltas:
    "uint (tick_counts wrap_demo wrap_after_2 ! 0 - cpu_irq_last wrap_after_2 ! 0) = 4294967293"
    "uint (tick_counts wrap_demo wrap_after_2 ! 1 - cpu_irq_last wrap_after_2 ! 1) = 0"
    by code_simp+
  have vals: "unat (delta_sum (tick_scan wrap_demo wrap_after_2)) = 4294967293"
      "unat (delta_avg_of wrap_demo (tick_scan wrap_demo wrap_after_2)) = 2147483646"
    by (simp add: wrap_scan_3) (simp add: wrap_avg_3)
  from delta_avg_floor [OF ne n, of wrap_after_2] ne n deltas vals wrap_tick_1 wrap_tick_2
    wrap_online_cpus
  show ?thesis by simp
qed

lemma delta_loop_max_cpu:
  "max_cpu (delta_loop cnt cpus s) = max_cpu s \<or>
   max_cpu (delta_loop cnt cpus s) \<in> int ` set cpus"
proof (induction cpus arbitrary: s)
  case Nil
  show ?case by simp
next
  case (Cons c cpus)
  from Cons.IH [of "delta_body cnt c s"] show ?case
    by (auto simp: delta_body_fields split: if_splits)
qed

lemma delta_loop_min_cpu:
  "min_cpu (delta_loop cnt cpus s) = min_cpu s \<or>
   min_cpu (delta_loop cnt cpus s) \<in> int ` set cpus"
proof (induction cpus arbitrary: s)
  case Nil
  show ?case by simp
next
  case (Cons c cpus)
  from Cons.IH [of "delta_body cnt c s"] show ?case
    by (auto simp: delta_body_fields split: if_splits)
qed

lemma delta_body_min_le_max:
  assumes "0 \<le> max_cpu s \<and> 0 \<le> min_cpu s \<longrightarrow> min_irq s \<le> max_irq s"
  shows "0 \<le> max_cpu (delta_body cnt c s) \<and> 0 \<le> min_cpu (delta_body cnt c s) \<longrightarrow>
         min_irq (delta_body cnt c s) \<le> max_irq (delta_body cnt c s)"
  using assms by (auto simp: delta_body_fields not_less)

lemma delta_loop_min_le_max:
  assumes "0 \<le> max_cpu s \<and> 0 \<le> min_cpu s \<longrightarrow> min_irq s \<le> max_irq s"
  shows "0 \<le> max_cpu (delta_loop cnt cpus s) \<and> 0 \<le> min_cpu (delta_loop cnt cpus s) \<longrightarrow>
         min_irq (delta_loop cnt cpus s) \<le> max_irq (delta_loop cnt cpus s)"
  using assms
proof (induction cpus arbitrary: s)
  case Nil
  then show ?case by simp
next
  case (Cons c cpus)
  from Cons.IH [OF delta_body_min_le_max [OF Cons.prems]] show ?case by simp
qed

lemma tick_scan_found:
  assumes "0 \<le> max_cpu (tick_scan p st)" and "0 \<le> min_cpu (tick_scan p st)"
  shows "min_irq (tick_scan p st) \<le> max_irq (tick_scan p st)"
    and "max_cpu (tick_scan p st) \<in> int ` set (for_each_online_cpu p)"
    and "min_cpu (tick_scan p st) \<in> int ` set (for_each_online_cpu p)"
proof -
  let ?init = "scan_init (cpu_irq_last st)"
  have "0 \<le> max_cpu ?init \<and> 0 \<le> min_cpu ?init \<longrightarrow> min_irq ?init \<le> max_irq ?init"
    by (simp add: scan_init_def)
  from delta_loop_min_le_max [OF this] assms
  show "min_irq (tick_scan p st) \<le> max_irq (tick_scan p st)"
    by (simp add: tick_scan_def)
  from delta_loop_max_cpu [of "tick_counts p st" "for_each_online_cpu p" ?init] assms(1)
  show "max_cpu (tick_scan p st) \<in> int ` set (for_each_online_cpu p)"
    by (auto simp: tick_scan_def scan_init_def)
  from delta_loop_min_cpu [of "tick_counts p st" "for_each_online_cpu p" ?init] assms(2)
  show "min_cpu (tick_scan p st) \<in> int ` set (for_each_online_cpu p)"
    by (auto simp: tick_scan_def scan_init_def)
qed

lemma two_members_length:
  assumes "a \<in> set xs" and "b \<in> set xs" and "a \<noteq> b"
  shows "2 \<le> length xs"
proof -
  from assms have "{a, b} \<subseteq> set xs" by simp
  then have "card {a, b} \<le> card (set xs)" by (intro card_mono) simp_all
  also have "card (set xs) \<le> length xs" by (rule card_length)
  finally show ?thesis using assms(3) by simp
qed

lemma threshold_compare:
  fixes sum mx mn :: u32
  assumes n: "2 \<le> n" "n < 2 ^ 32" and le: "mn \<le> mx"
  shows "(sum div of_nat n + 800 \<le> mx - mn) = (unat sum div n + 800 \<le> unat mx - unat mn)"
    and "sint (sum div of_nat n) = int (unat sum div n)"
proof -
  let ?avg = "sum div of_nat n :: u32"
  from n have un: "unat (of_nat n :: u32) = n" by (simp add: unat_of_nat)
  have avg: "unat ?avg = unat sum div n" by (simp add: unat_div un)
  have "unat sum < 2 ^ 32" using unsigned_less [of sum] by simp
  then have "unat sum div n < 2 ^ 31" using n(1) by (simp add: less_mult_imp_div_less)
  with avg have small: "unat ?avg < 2 ^ 31" by simp
  then have "unat ?avg + unat (800 :: u32) < 2 ^ LENGTH(32)" by simp
  then have "unat (?avg + 800) = unat ?avg + unat (800 :: u32)"
    by (simp only: unat_add_lem)
  then have thr: "unat (?avg + 800) = unat sum div n + 800" by (simp add: avg)
  have "unat (mx - mn) = unat mx - unat mn" by (rule unat_sub [OF le])
  with thr show "(?avg + 800 \<le> mx - mn) = (unat sum div n + 800 \<le> unat mx - unat mn)"
    by (simp add: word_le_nat_alt)
  from sint_small [OF small] avg show "sint ?avg = int (unat sum div n)" by simp
qed

lemma is_cpu_big_iff:
  "is_cpu_big p cpu \<longleftrightarrow>
     (\<exists>policy. cpufreq_cpu_get p cpu = Some policy \<and> 2000000 \<le> unat (cpuinfo_max_freq policy))"
  by (simp add: is_cpu_big_def get_cpu_max_freq_def word_le_nat_alt split: option.split)

lemma nat_int_threshold: "(a + 800 \<le> b) = (int a + 800 \<le> int b)"
  by linarith

lemma threshold_compare_int:
  fixes sum mx mn :: u32
  assumes n: "2 \<le> n" "n < 2 ^ 32" and le: "mn \<le> mx"
  shows "(sum div of_nat n + 800 \<le> mx - mn) =
           (sint (sum div of_nat n) + 800 \<le> uint mx - uint mn)"
    and "sint (sum div of_nat n) = uint sum div int n"
    and "0 \<le> sint sum \<Longrightarrow> sint (sum div of_nat n) = sint sum div int n"
proof -
  from le have "unat mn \<le> unat mx" by (simp add: word_le_nat_alt)
  then have diff: "uint mx - uint mn = int (unat mx - unat mn)"
    by (simp add: of_nat_diff)
  have avg: "sint (sum div of_nat n) = int (unat sum div n)"
    by (rule threshold_compare(2) [OF n le])
  show "(sum div of_nat n + 800 \<le> mx - mn) =
          (sint (sum div of_nat n) + 800 \<le> uint mx - uint mn)"
    unfolding threshold_compare(1) [OF n le] avg diff
    by (rule nat_int_threshold)
  show u: "sint (sum div of_nat n) = uint sum div int n"
    unfolding avg by (simp add: zdiv_int)
  show "sint (sum div of_nat n) = sint sum div int n" if "0 \<le> sint sum"
    unfolding u using sint_nonneg_uint [OF that] by simp
qed



text \<open>
  C1 as stated fails once the sum of the deltas does not fit the accumulator. On the
  first tick of the first run below the deltas are 3221225472 and 1073741824: their sum
  is \<open>2^32\<close>, half of it plus 800 is more than their difference, and yet the migrator is
  called, because the accumulator has wrapped to 0. On the first tick of the second run
  the deltas are 2147483648 and 1073741824: \<^verbatim>\<open>delta_sum\<close> read as the \<^verbatim>\<open>int\<close> it is
  declared as is \<open>-1073741824\<close>, half of it plus 800 is below the difference of the
  deltas, CPU 0 is fast, CPU 1 is slow and the temperature is 50, and yet the migrator
  is not called, because the division is unsigned.
\<close>

theorem migrator_threshold_counterexample:
  "exotic_balance_irq sum_wrap_demo (started sum_wrap_demo) =
     Inr \<lparr>state = \<lparr>exoticbalance_enabled = True,
                    cpu_irq_count = [3221225472, 1073741824],
                    cpu_irq_last = [3221225472, 1073741824], heavy_tick = True\<rparr>,
          migrator_call = Some (0, 1),
          affinity_calls = [(1, 1), (3, 1), (4, 1), (5, 1), (6, 1)],
          scheduled = [5000]\<rparr> \<and>
   for_each_online_cpu sum_wrap_demo = [0, 1] \<and>
   uint (tick_counts sum_wrap_demo (started sum_wrap_demo) ! 0 -
         cpu_irq_last (started sum_wrap_demo) ! 0) = 3221225472 \<and>
   uint (tick_counts sum_wrap_demo (started sum_wrap_demo) ! 1 -
         cpu_irq_last (started sum_wrap_demo) ! 1) = 1073741824 \<and>
   uint (max_irq (tick_scan sum_wrap_demo (started sum_wrap_demo))) = 3221225472 \<and>
   uint (min_irq (tick_scan sum_wrap_demo (started sum_wrap_demo))) = 1073741824 \<and>
   \<not> (3221225472 + 1073741824) div 2 + 800 \<le> (3221225472 :: int) - 1073741824 \<and>
   exotic_balance_irq signed_demo (started signed_demo) =
     Inr \<lparr>state = \<lparr>exoticbalance_enabled = True,
                    cpu_irq_count = [2147483648, 1073741824],
                    cpu_irq_last = [2147483648, 1073741824], heavy_tick = True\<rparr>,
          migrator_call = None, affinity_calls = [], scheduled = [5000]\<rparr> \<and>
   max_cpu (tick_scan signed_demo (started signed_demo)) = 0 \<and>
   min_cpu (tick_scan signed_demo (started signed_demo)) = 1 \<and>
   uint (max_irq (tick_scan signed_demo (started signed_demo))) = 2147483648 \<and>
   uint (min_irq (tick_scan signed_demo (started signed_demo))) = 1073741824 \<and>
   sint (delta_sum (tick_scan signed_demo (started signed_demo))) = - 1073741824 \<and>
   (- 1073741824) div 2 + 800 \<le> (2147483648 :: int) - 1073741824 \<and>
   is_cpu_big signed_demo 0 \<and> \<not> is_cpu_big signed_demo 1 \<and>
   get_max_cpu_temp signed_demo = 50"
proof -
  have a: "exotic_balance_irq sum_wrap_demo (started sum_wrap_demo) =
     Inr \<lparr>state = \<lparr>exoticbalance_enabled = True,
                    cpu_irq_count = [3221225472, 1073741824],
                    cpu_irq_last = [3221225472, 1073741824], heavy_tick = True\<rparr>,
          migrator_call = Some (0, 1),
          affinity_calls = [(1, 1), (3, 1), (4, 1), (5, 1), (6, 1)],
          scheduled = [5000]\<rparr>"
    by code_simp
  have a_online: "for_each_online_cpu sum_wrap_demo = [0, 1]" by code_simp
  have a_deltas:
    "uint (tick_counts sum_wrap_demo (started sum_wrap_demo) ! 0 -
           cpu_irq_last (started sum_wrap_demo) ! 0) = 3221225472"
    "uint (tick_counts sum_wrap_demo (started sum_wrap_demo) ! 1 -
           cpu_irq_last (started sum_wrap_demo) ! 1) = 1073741824"
    by code_simp+
  have a_scan: "max_irq (tick_scan sum_wrap_demo (started sum_wrap_demo)) = 3221225472"
      "min_irq (tick_scan sum_wrap_demo (started sum_wrap_demo)) = 1073741824"
    by code_simp+
  have b: "exotic_balance_irq signed_demo (started signed_demo) =
     Inr \<lparr>state = \<lparr>exoticbalance_enabled = True,
                    cpu_irq_count = [2147483648, 1073741824],
                    cpu_irq_last = [2147483648, 1073741824], heavy_tick = True\<rparr>,
          migrator_call = None, affinity_calls = [], scheduled = [5000]\<rparr>"
    by code_simp
  have b_scan: "max_cpu (tick_scan signed_demo (started signed_demo)) = 0"
      "min_cpu (tick_scan signed_demo (started signed_demo)) = 1"
      "max_irq (tick_scan signed_demo (started signed_demo)) = 2147483648"
      "min_irq (tick_scan signed_demo (started signed_demo)) = 1073741824"
      "delta_sum (tick_scan signed_demo (started signed_demo)) = 3221225472"
    by code_simp+
  have b_cpus: "is_cpu_big signed_demo 0" "\<not> is_cpu_big signed_demo 1"
      "get_max_cpu_temp signed_demo = 50"
    by code_simp+
  show ?thesis
    unfolding a_scan b_scan using a a_online a_deltas b b_cpus by simp
qed

text \<open>
  C1, amended. An executed tick (with at least one CPU online) calls the migrator, with
  the busiest CPU as source and the idlest as destination, exactly when all of these
  hold: both were found and differ; the difference of their deltas is at least the
  average plus 800, where the average is \<^verbatim>\<open>delta_sum\<close> divided by the number of online
  CPUs and rounded down, and \<^verbatim>\<open>delta_sum\<close> is the 32-bit accumulator read as unsigned,
  that is, the sum of the deltas of the online CPUs reduced modulo \<open>2^32\<close>; the idlest
  CPU is slow and the busiest is fast, where a CPU is fast if and only if its cpufreq
  policy exists and has a maximum frequency of at least 2000000 kHz; and the
  temperature is below 70. Whenever both CPUs were found and differ, that average is the
  value of the \<^verbatim>\<open>int\<close> variable \<^verbatim>\<open>delta_avg\<close>.
\<close>

theorem migrator_invoked_iff:
  assumes "exoticbalance_enabled st" and "num_online_cpus p \<noteq> 0"
    and "nr_cpu_ids p < 2 ^ 32"
  shows
    "\<exists>out. exotic_balance_irq p st = Inr out \<and>
       (let s = tick_scan p st; n = int (length (for_each_online_cpu p));
            found = (0 \<le> max_cpu s \<and> 0 \<le> min_cpu s \<and> max_cpu s \<noteq> min_cpu s) in
          migrator_call out =
            (if found \<and>
                uint (delta_sum s) div n + 800 \<le> uint (max_irq s) - uint (min_irq s) \<and>
                \<not> (\<exists>policy. cpufreq_cpu_get p (min_cpu s) = Some policy \<and>
                      2000000 \<le> unat (cpuinfo_max_freq policy)) \<and>
                (\<exists>policy. cpufreq_cpu_get p (max_cpu s) = Some policy \<and>
                      2000000 \<le> unat (cpuinfo_max_freq policy)) \<and>
                get_max_cpu_temp p < 70
             then Some (max_cpu s, min_cpu s) else None) \<and>
          uint (delta_sum s) =
            sum_list (map (\<lambda>cpu. uint (tick_counts p st ! cpu - cpu_irq_last st ! cpu))
              (for_each_online_cpu p)) mod 2 ^ 32 \<and>
          (found \<longrightarrow> sint (delta_avg_of p s) = uint (delta_sum s) div n))"
proof -
  let ?s = "tick_scan p st"
  let ?n = "length (for_each_online_cpu p)"
  let ?found = "0 \<le> max_cpu ?s \<and> 0 \<le> min_cpu ?s \<and> max_cpu ?s \<noteq> min_cpu ?s"
  from assms(3) have n_small: "?n < 2 ^ 32"
    using length_online_le [of p] by simp
  have num: "num_online_cpus p = of_nat ?n"
    by (simp add: num_online_cpus_def)
  have found: "(dynamic_threshold_of p ?s \<le> max_irq ?s - min_irq ?s) =
                 (uint (delta_sum ?s) div int ?n + 800 \<le> uint (max_irq ?s) - uint (min_irq ?s))"
      "sint (delta_avg_of p ?s) = uint (delta_sum ?s) div int ?n"
    if f: ?found
  proof -
    from f tick_scan_found [of p st]
    have le: "min_irq ?s \<le> max_irq ?s"
      and mx: "max_cpu ?s \<in> int ` set (for_each_online_cpu p)"
      and mn: "min_cpu ?s \<in> int ` set (for_each_online_cpu p)"
      by simp_all
    from mx mn f obtain a b where
      "a \<in> set (for_each_online_cpu p)" "b \<in> set (for_each_online_cpu p)" "a \<noteq> b"
      by auto
    then have two: "2 \<le> ?n" by (rule two_members_length)
    note cmp = threshold_compare_int [OF two n_small le, of "delta_sum ?s"]
    from cmp(2) show avg: "sint (delta_avg_of p ?s) = uint (delta_sum ?s) div int ?n"
      by (simp add: delta_avg_of_def num)
    from cmp(1)
    have "(dynamic_threshold_of p ?s \<le> max_irq ?s - min_irq ?s) =
            (sint (delta_avg_of p ?s) + 800 \<le> uint (max_irq ?s) - uint (min_irq ?s))"
      by (simp add: dynamic_threshold_of_def delta_avg_of_def num MIN_DELTA_IRQS_BASE_def)
    then show "(dynamic_threshold_of p ?s \<le> max_irq ?s - min_irq ?s) =
            (uint (delta_sum ?s) div int ?n + 800 \<le> uint (max_irq ?s) - uint (min_irq ?s))"
      by (simp only: avg)
  qed
  have call:
    "(if 0 \<le> max_cpu ?s \<and> 0 \<le> min_cpu ?s \<and> max_cpu ?s \<noteq> min_cpu ?s \<and>
         dynamic_threshold_of p ?s \<le> max_irq ?s - min_irq ?s \<and>
         \<not> is_cpu_big p (min_cpu ?s) \<and> is_cpu_big p (max_cpu ?s) \<and>
         get_max_cpu_temp p < MAX_CPU_TEMP_THRESHOLD
      then Some (max_cpu ?s, min_cpu ?s) else None) =
     (if ?found \<and>
         uint (delta_sum ?s) div int ?n + 800 \<le> uint (max_irq ?s) - uint (min_irq ?s) \<and>
         \<not> (\<exists>policy. cpufreq_cpu_get p (min_cpu ?s) = Some policy \<and>
               2000000 \<le> unat (cpuinfo_max_freq policy)) \<and>
         (\<exists>policy. cpufreq_cpu_get p (max_cpu ?s) = Some policy \<and>
               2000000 \<le> unat (cpuinfo_max_freq policy)) \<and>
         get_max_cpu_temp p < 70
      then Some (max_cpu ?s, min_cpu ?s) else None)"
  proof (cases ?found)
    case True
    from found(1) [OF True] True show ?thesis
      by (simp only: is_cpu_big_iff MAX_CPU_TEMP_THRESHOLD_def) simp
  next
    case False
    then show ?thesis by auto
  qed
  show ?thesis
    unfolding tick_enabled [OF assms(1,2)] Let_def call
    using found(2) tick_scan_sum [of p st] by simp
qed

theorem migrator_invoked_iff_witness:
  "exoticbalance_enabled (started demo) \<and> num_online_cpus demo \<noteq> 0 \<and>
   nr_cpu_ids demo < 2 ^ 32 \<and>
   tick_scan demo (started demo) =
     \<lparr>max_irq = 2000, min_irq = 100, max_cpu = 0, min_cpu = 1, delta_sum = 2100,
      irq_last = [2000, 100]\<rparr> \<and>
   length (for_each_online_cpu demo) = 2 \<and>
   delta_avg_of demo (tick_scan demo (started demo)) = 1050 \<and>
   uint (2100 :: u32) div 2 + 800 \<le> uint (2000 :: u32) - uint (100 :: u32) \<and>
   sint (1050 :: u32) = uint (2100 :: u32) div 2 \<and>
   cpufreq_cpu_get demo 1 = Some \<lparr>cpuinfo_max_freq = 1200000\<rparr> \<and>
   cpufreq_cpu_get demo 0 = Some \<lparr>cpuinfo_max_freq = 2400000\<rparr> \<and>
   get_max_cpu_temp demo = 50 \<and>
   exotic_balance_irq demo (started demo) =
     Inr \<lparr>state = demo_after_tick, migrator_call = Some (0, 1),
          affinity_calls = [(1, 1), (3, 1), (4, 1), (5, 1), (6, 1)],
          scheduled = [5000]\<rparr>"
proof -
  have n: "nr_cpu_ids demo < 2 ^ 32" by (simp add: demo_def)
  have scan: "tick_scan demo (started demo) =
     \<lparr>max_irq = 2000, min_irq = 100, max_cpu = 0, min_cpu = 1, delta_sum = 2100,
      irq_last = [2000, 100]\<rparr>"
    by code_simp
  have avg: "delta_avg_of demo (tick_scan demo (started demo)) = 1050" by code_simp
  have temp: "get_max_cpu_temp demo = 50" by code_simp
  have freq: "cpufreq_cpu_get demo 1 = Some \<lparr>cpuinfo_max_freq = 1200000\<rparr>"
      "cpufreq_cpu_get demo 0 = Some \<lparr>cpuinfo_max_freq = 2400000\<rparr>"
    by (simp_all add: demo_def)
  have arith: "uint (2100 :: u32) div 2 + 800 \<le> uint (2000 :: u32) - uint (100 :: u32)"
      "sint (1050 :: u32) = uint (2100 :: u32) div 2"
    by simp_all
  from migrator_invoked_iff [OF started_fields(1) demo_num_online(1) n]
    started_fields(1) [of demo] demo_num_online(1) n scan avg temp freq arith demo_tick
  show ?thesis
    by (simp add: demo_online demo_after_tick_def)
qed

subsection \<open>Properties of the start operation\<close>

text \<open>
  C8. When exactly one of the two allocations fails, \<^verbatim>\<open>exoticbalance_init\<close> returns
  \<^verbatim>\<open>-ENOMEM\<close> and schedules nothing, but the block of the allocation that succeeded is
  still among the allocator's live blocks: the error path has no \<^verbatim>\<open>kfree\<close>.
\<close>

theorem init_failure_leaks:
  "exoticbalance_init p True False h =
     \<lparr>ret = - ENOMEM, cpu_irq_count_ptr = Some (Suc (fold max (map fst h) 0)),
      cpu_irq_last_ptr = None,
      live = h @ [(Suc (fold max (map fst h) 0), replicate (nr_cpu_ids p) 0)],
      first_delay = []\<rparr> \<and>
   exoticbalance_init p False True h =
     \<lparr>ret = - ENOMEM, cpu_irq_count_ptr = None,
      cpu_irq_last_ptr = Some (Suc (fold max (map fst h) 0)),
      live = h @ [(Suc (fold max (map fst h) 0), replicate (nr_cpu_ids p) 0)],
      first_delay = []\<rparr>"
  by (simp add: exoticbalance_init_def kzalloc_def Let_def)

lemma init_demo_leak:
  "exoticbalance_init demo True False [] =
     \<lparr>ret = - 12, cpu_irq_count_ptr = Some 1, cpu_irq_last_ptr = None,
      live = [(1, [0, 0])], first_delay = []\<rparr>"
  by code_simp

lemma init_ok:
  "exoticbalance_init p True True [] =
     \<lparr>ret = 0, cpu_irq_count_ptr = Some 1, cpu_irq_last_ptr = Some 2,
      live = [(1, cpu_irq_count (started p)), (2, cpu_irq_last (started p))],
      first_delay = [LIGHT_INTERVAL_MS]\<rparr>"
  by (simp add: exoticbalance_init_def kzalloc_def Let_def started_def)

lemma exit_frees_all:
  "exoticbalance_exit (exoticbalance_init p True True []) = []"
  by (simp add: init_ok exoticbalance_exit_def kfree_def)

end
